theory Spec2Isabelle
  imports Main "HOL-Library.Sublist" "HOL-Library.Multiset"
begin

section \<open>Strings and characters\<close>

text \<open>
  A JavaScript string is a sequence of UTF-16 code units. The embedding works on
  \<^typ>\<open>string\<close>, reading a \<^typ>\<open>char\<close> as the code unit with the same number, so it
  covers the strings whose code units are below 256 (ASCII and Latin-1). The character
  classes below are the ECMAScript ones restricted to that range.

  \<open>toLowerCase\<close> is embedded on that range only, where it maps one code unit to one code
  unit and never turns a character that is not a word character into one. Beyond it
  neither holds (U+212A becomes \<open>k\<close>, U+0130 becomes two code units), so a whole word of a
  text need not be a whole word of the lower-cased text. No statement below relies on
  lower-casing keeping the whole words of a text: what is said about the keyword scan is
  said of the lower-cased text that the scan reads.
\<close>

definition is_word :: "char \<Rightarrow> bool" where
  \<comment> \<open>the class \<open>\w\<close>, that is \<open>[A-Za-z0-9_]\<close>\<close>
  "is_word c = (let n = (of_char c :: nat) in
     (48 \<le> n \<and> n \<le> 57) \<or> (65 \<le> n \<and> n \<le> 90) \<or> n = 95 \<or> (97 \<le> n \<and> n \<le> 122))"

definition is_ident_start :: "char \<Rightarrow> bool" where
  \<comment> \<open>the class \<open>[A-Za-z_]\<close>\<close>
  "is_ident_start c = (let n = (of_char c :: nat) in
     (65 \<le> n \<and> n \<le> 90) \<or> n = 95 \<or> (97 \<le> n \<and> n \<le> 122))"

definition is_line_terminator :: "char \<Rightarrow> bool" where
  \<comment> \<open>what \<open>.\<close> does not match and what \<open>$\<close> stops at under the flag \<open>m\<close>: LF and CR\<close>
  "is_line_terminator c = (let n = (of_char c :: nat) in n = 10 \<or> n = 13)"

definition is_space :: "char \<Rightarrow> bool" where
  \<comment> \<open>the class \<open>\s\<close>, also what \<open>trim\<close> removes: TAB, LF, VT, FF, CR, SP, NBSP\<close>
  "is_space c = (let n = (of_char c :: nat) in (9 \<le> n \<and> n \<le> 13) \<or> n = 32 \<or> n = 160)"

definition toLowerCase_char :: "char \<Rightarrow> char" where
  "toLowerCase_char c = (let n = (of_char c :: nat) in
     if (65 \<le> n \<and> n \<le> 90) \<or> (192 \<le> n \<and> n \<le> 222 \<and> n \<noteq> 215)
     then char_of (n + 32) else c)"

definition toLowerCase :: "string \<Rightarrow> string" where
  "toLowerCase s = map toLowerCase_char s"

definition canonicalize :: "char \<Rightarrow> char" where
  \<comment> \<open>how a regular expression with the flag \<open>i\<close> (and without \<open>u\<close>) compares characters:
      by their upper-case forms\<close>
  "canonicalize c = (let n = (of_char c :: nat) in
     if (97 \<le> n \<and> n \<le> 122) \<or> (224 \<le> n \<and> n \<le> 254 \<and> n \<noteq> 247)
     then char_of (n - 32) else c)"

definition trim :: "string \<Rightarrow> string" where
  "trim s = rev (dropWhile is_space (rev (dropWhile is_space s)))"

fun str_includes :: "string \<Rightarrow> string \<Rightarrow> bool" where
  \<comment> \<open>\<open>s.includes(sub)\<close>\<close>
  "str_includes [] sub = (sub = [])"
| "str_includes (c # cs) sub = (prefix sub (c # cs) \<or> str_includes cs sub)"

fun split_on :: "char \<Rightarrow> string \<Rightarrow> string list" where
  \<comment> \<open>\<open>s.split(d)\<close> for a one-character separator: empty pieces are kept\<close>
  "split_on d [] = [[]]"
| "split_on d (c # cs) =
     (if c = d then [] # split_on d cs
      else (case split_on d cs of [] \<Rightarrow> [[c]] | p # ps \<Rightarrow> (c # p) # ps))"

fun join :: "string \<Rightarrow> string list \<Rightarrow> string" where
  "join sep [] = []"
| "join sep [p] = p"
| "join sep (p # q # ps) = p @ sep @ join sep (q # ps)"

section \<open>Regular expressions of the validator\<close>

text \<open>
  Each regular expression of the source is embedded as the function that the ECMAScript
  matching algorithm computes for it. An anchored matcher receives the character before
  the current position (for \<open>\b\<close>) and the rest of the subject; \<open>regex_search\<close> tries the
  positions from left to right, the end of the subject included, and returns the first
  match.
\<close>

definition is_word_opt :: "char option \<Rightarrow> bool" where
  "is_word_opt p = (case p of None \<Rightarrow> False | Some c \<Rightarrow> is_word c)"

definition word_boundary :: "char option \<Rightarrow> char option \<Rightarrow> bool" where
  \<comment> \<open>\<open>\b\<close> between the character before and the character after a position\<close>
  "word_boundary a b = (is_word_opt a \<noteq> is_word_opt b)"

fun next_char :: "string \<Rightarrow> char option" where
  "next_char [] = None"
| "next_char (c # cs) = Some c"

definition last_char :: "char option \<Rightarrow> string \<Rightarrow> char option" where
  \<comment> \<open>the character before the position reached after consuming a piece of text\<close>
  "last_char prev consumed = (if consumed = [] then prev else Some (last consumed))"

fun ci_literal :: "string \<Rightarrow> string \<Rightarrow> (string \<times> string) option" where
  \<comment> \<open>a literal under the flag \<open>i\<close>: the text matched and the rest\<close>
  "ci_literal [] s = Some ([], s)"
| "ci_literal (p # ps) [] = None"
| "ci_literal (p # ps) (c # cs) =
     (if canonicalize p = canonicalize c then
        (case ci_literal ps cs of None \<Rightarrow> None | Some (txt, rest) \<Rightarrow> Some (c # txt, rest))
      else None)"

fun regex_search :: "(char option \<Rightarrow> string \<Rightarrow> 'a option) \<Rightarrow> char option \<Rightarrow> string \<Rightarrow> 'a option" where
  "regex_search m prev [] = m prev []"
| "regex_search m prev (c # cs) =
     (case m prev (c # cs) of Some r \<Rightarrow> Some r | None \<Rightarrow> regex_search m (Some c) cs)"

definition word_at :: "string \<Rightarrow> char option \<Rightarrow> string \<Rightarrow> unit option" where
  \<comment> \<open>\<open>\bkw\b\<close> with the flag \<open>i\<close>, anchored\<close>
  "word_at kw prev s =
     (if word_boundary prev (next_char s) then
        (case ci_literal kw s of
           None \<Rightarrow> None
         | Some (txt, rest) \<Rightarrow>
             if word_boundary (last_char prev txt) (next_char rest) then Some () else None)
      else None)"

definition test_word :: "string \<Rightarrow> string \<Rightarrow> bool" where
  \<comment> \<open>\<open>new RegExp(`\\b${kw}\\b`, 'i').test(s)\<close>\<close>
  "test_word kw s = (regex_search (word_at kw) None s \<noteq> None)"

definition select_star_at :: "char option \<Rightarrow> string \<Rightarrow> unit option" where
  \<comment> \<open>\<open>\bselect\b\s+\*\<close> with the flag \<open>i\<close>, anchored\<close>
  "select_star_at prev s =
     (if word_boundary prev (next_char s) then
        (case ci_literal ''select'' s of
           None \<Rightarrow> None
         | Some (txt, rest) \<Rightarrow>
             if word_boundary (last_char prev txt) (next_char rest)
                \<and> takeWhile is_space rest \<noteq> []
                \<and> next_char (dropWhile is_space rest) = Some (CHR ''*'')
             then Some () else None)
      else None)"

definition test_select_star :: "string \<Rightarrow> bool" where
  "test_select_star s = (regex_search select_star_at None s \<noteq> None)"

definition is_table_char :: "char \<Rightarrow> bool" where
  \<comment> \<open>the class \<open>[`"\w.]\<close>\<close>
  "is_table_char c = (c = CHR 0x60 \<or> c = CHR 0x22 \<or> is_word c \<or> c = CHR ''.'')"

fun backtrack_boundary :: "string \<Rightarrow> char option \<Rightarrow> string option" where
  \<comment> \<open>the greedy \<open>[`"\w.]+\<close> followed by \<open>\b\<close>: the run is given reversed, with the character
      after it; the longest non-empty prefix of the run that ends at a word boundary\<close>
  "backtrack_boundary [] nxt = None"
| "backtrack_boundary (c # rs) nxt =
     (if word_boundary (Some c) nxt then Some (rev (c # rs)) else backtrack_boundary rs (Some c))"

definition from_at :: "char option \<Rightarrow> string \<Rightarrow> string option" where
  \<comment> \<open>\<open>\bfrom\b\s+([`"\w.]+)\b\<close> with the flag \<open>i\<close>, anchored; the result is group 1\<close>
  "from_at prev s =
     (if word_boundary prev (next_char s) then
        (case ci_literal ''from'' s of
           None \<Rightarrow> None
         | Some (txt, rest) \<Rightarrow>
             if word_boundary (last_char prev txt) (next_char rest)
                \<and> takeWhile is_space rest \<noteq> []
             then (let r = dropWhile is_space rest in
                   backtrack_boundary (rev (takeWhile is_table_char r))
                     (next_char (dropWhile is_table_char r)))
             else None)
      else None)"

section \<open>The SQL validator\<close>

text \<open>
  What a \<open>throw\<close> carries: a \<open>SqlValidationError\<close>, another \<open>Error\<close>, or a value
  that is no \<open>Error\<close> at all. A function that can throw returns \<open>exn + 'a\<close>.
\<close>

datatype exn = SqlValidationError (message: string) | Error (message: string) | NonError

record Allowlist =
  tables :: "(string \<times> string set) list"
  modelToTable :: "(string \<times> string) list"

record ValidatedQuery =
  table :: string
  referencedColumns :: "string list"

definition FORBIDDEN_KEYWORDS :: "string list" where
  "FORBIDDEN_KEYWORDS =
     [''insert'', ''update'', ''delete'', ''drop'', ''alter'', ''create'', ''truncate'',
      ''optimize'', ''attach'', ''detach'', ''grant'', ''revoke'', ''system'', ''kill'',
      ''set'', ''use'', ''show'', ''describe'', ''explain'']"

function strip_line_comments :: "string \<Rightarrow> string" where
  \<comment> \<open>\<open>.replace(/--.*$/gm, '')\<close>\<close>
  "strip_line_comments [] = []"
| "strip_line_comments [c] = [c]"
| "strip_line_comments (c # d # cs) =
     (if c = CHR ''-'' \<and> d = CHR ''-''
      then strip_line_comments (dropWhile (\<lambda>x. \<not> is_line_terminator x) cs)
      else c # strip_line_comments (d # cs))"
  by pat_completeness auto
termination
  by (relation "measure length") (auto intro: le_imp_less_Suc le_SucI length_dropWhile_le)

fun find_comment_end :: "string \<Rightarrow> string option" where
  \<comment> \<open>the lazy \<open>[\s\S]*?\*\/\<close>: what follows the first \<open>*/\<close>\<close>
  "find_comment_end [] = None"
| "find_comment_end [c] = None"
| "find_comment_end (c # d # cs) =
     (if c = CHR ''*'' \<and> d = CHR ''/'' then Some cs else find_comment_end (d # cs))"

lemma find_comment_end_length: "find_comment_end s = Some r \<Longrightarrow> length r < length s"
  by (induction s arbitrary: r rule: find_comment_end.induct) (auto split: if_splits)

function strip_block_comments :: "string \<Rightarrow> string" where
  \<comment> \<open>\<open>.replace(/\/\*[\s\S]*?\*\//g, '')\<close>\<close>
  "strip_block_comments [] = []"
| "strip_block_comments [c] = [c]"
| "strip_block_comments (c # d # cs) =
     (if c = CHR ''/'' \<and> d = CHR ''*'' then
        (case find_comment_end cs of
           Some r \<Rightarrow> strip_block_comments r
         | None \<Rightarrow> c # strip_block_comments (d # cs))
      else c # strip_block_comments (d # cs))"
  by pat_completeness auto
termination
  by (relation "measure length") (auto dest: find_comment_end_length)

function collapse_whitespace :: "string \<Rightarrow> string" where
  \<comment> \<open>\<open>.replace(/\s+/g, ' ')\<close>\<close>
  "collapse_whitespace [] = []"
| "collapse_whitespace (c # cs) =
     (if is_space c then CHR '' '' # collapse_whitespace (dropWhile is_space cs)
      else c # collapse_whitespace cs)"
  by pat_completeness auto
termination
  by (relation "measure length") (auto intro: le_imp_less_Suc length_dropWhile_le)

definition normalize :: "string \<Rightarrow> string" where
  "normalize sql = trim (collapse_whitespace (strip_block_comments (strip_line_comments sql)))"

definition lower :: "string \<Rightarrow> string" where
  "lower sql = toLowerCase sql"

definition hasMultiStatement :: "string \<Rightarrow> bool" where
  "hasMultiStatement sql = (CHR '';'' \<in> set sql)"

definition startsWithSelectOrWith :: "string \<Rightarrow> bool" where
  "startsWithSelectOrWith sqlLower = (prefix ''select '' sqlLower \<or> prefix ''with '' sqlLower)"

definition containsForbidden :: "string \<Rightarrow> string option" where
  "containsForbidden sqlLower = find (\<lambda>kw. test_word kw sqlLower) FORBIDDEN_KEYWORDS"

definition extractFromTable :: "string \<Rightarrow> string option" where
  "extractFromTable normalizedSql = regex_search from_at None normalizedSql"

definition stripQuotesTable :: "string \<Rightarrow> string" where
  "stripQuotesTable t = filter (\<lambda>c. c \<noteq> CHR 0x22 \<and> c \<noteq> CHR 0x60) t"

fun qualified_part :: "string \<Rightarrow> (string \<times> string) option" where
  \<comment> \<open>the optional group \<open>(?:\.[A-Za-z_][A-Za-z0-9_]*)?\<close>: the text matched and the rest,
      or \<open>None\<close> when the group matches nothing\<close>
  "qualified_part (dot # d # r2) =
     (if dot = CHR ''.'' \<and> is_ident_start d
      then Some (dot # d # takeWhile is_word r2, dropWhile is_word r2) else None)"
| "qualified_part r = None"

lemma qualified_part_length: "qualified_part r = Some (q, rest) \<Longrightarrow> length rest < length r"
  by (cases r rule: qualified_part.cases)
     (auto split: if_splits intro: le_imp_less_Suc le_SucI length_dropWhile_le)

function ident_tokens :: "string \<Rightarrow> string list" where
  \<comment> \<open>\<open>.match(/[A-Za-z_][A-Za-z0-9_]*(?:\.[A-Za-z_][A-Za-z0-9_]*)?/g) || []\<close>\<close>
  "ident_tokens [] = []"
| "ident_tokens (c # cs) =
     (if is_ident_start c then
        (case qualified_part (dropWhile is_word cs) of
           Some (q, rest) \<Rightarrow> (c # takeWhile is_word cs @ q) # ident_tokens rest
         | None \<Rightarrow> (c # takeWhile is_word cs) # ident_tokens (dropWhile is_word cs))
      else ident_tokens cs)"
  by pat_completeness auto
termination
proof (relation "measure length", goal_cases)
  case 1
  show ?case by simp
next
  case (2 c cs)
  then show ?case by (simp add: le_imp_less_Suc length_dropWhile_le)
next
  case (3 c cs x q rest)
  have "length rest < length (dropWhile is_word cs)"
    using 3(2,3) qualified_part_length by metis
  moreover have "length (dropWhile is_word cs) \<le> length cs" by (rule length_dropWhile_le)
  ultimately show ?case by simp
next
  case (4 c cs)
  then show ?case by simp
qed

definition stop :: "string list" where
  "stop =
     [''select'', ''from'', ''where'', ''group'', ''by'', ''order'', ''limit'', ''with'', ''as'',
      ''and'', ''or'', ''not'', ''in'', ''is'', ''null'', ''asc'', ''desc'', ''distinct'',
      ''sum'', ''avg'', ''min'', ''max'', ''count'', ''date'', ''toDate'', ''toStartOfWeek'',
      ''having'', ''case'', ''when'', ''then'', ''else'', ''end'', ''on'', ''join'', ''inner'',
      ''left'', ''right'', ''full'', ''cross'']"

definition fromParts_of :: "string \<Rightarrow> string list" where
  \<comment> \<open>\<open>fromTableStripped.split('.').map(p => p.trim()).filter(Boolean)\<close>\<close>
  "fromParts_of fromTable =
     filter (\<lambda>p. p \<noteq> [])
       (map trim (split_on (CHR ''.'') (toLowerCase (stripQuotesTable fromTable))))"

definition column_of_token :: "string \<Rightarrow> string \<Rightarrow> string option" where
  \<comment> \<open>the body of the loop over the tokens: \<open>None\<close> where it says \<open>continue\<close>, the name
      given to \<open>cols.add\<close> otherwise\<close>
  "column_of_token fromTable tok =
     (let fromTableStripped = toLowerCase (stripQuotesTable fromTable);
          fromParts = fromParts_of fromTable;
          l = toLowerCase tok in
      if l \<in> set stop then None
      else if l \<in> set FORBIDDEN_KEYWORDS then None
      else
        (let tokParts = split_on (CHR ''.'') l in
         if (\<exists>part \<in> set tokParts. part \<in> set fromParts) then None
         else if length fromParts > 1 \<and> length tokParts > 1
                 \<and> join ''.'' tokParts = fromTableStripped then None
         else Some (if CHR ''.'' \<in> set tok then last (split_on (CHR ''.'') tok) else tok)))"

definition set_add :: "string list \<Rightarrow> string \<Rightarrow> string list" where
  \<comment> \<open>\<open>Set.prototype.add\<close> on a set kept in insertion order\<close>
  "set_add cols c = (if c \<in> set cols then cols else cols @ [c])"

definition findReferencedColumns :: "string \<Rightarrow> string \<Rightarrow> string list" where
  "findReferencedColumns normalizedSql fromTable =
     foldl (\<lambda>cols tok. case column_of_token fromTable tok of
                             None \<Rightarrow> cols
                           | Some c \<Rightarrow> set_add cols c)
       [] (ident_tokens normalizedSql)"

definition truthy :: "string option \<Rightarrow> bool" where
  \<comment> \<open>a value of type \<open>string | null | undefined\<close> used as a condition\<close>
  "truthy v = (case v of None \<Rightarrow> False | Some s \<Rightarrow> s \<noteq> [])"

definition validateSql :: "string \<Rightarrow> Allowlist \<Rightarrow> exn + ValidatedQuery" where
  "validateSql sql allowlist =
     (let normalized = normalize sql;
          sqlLower = lower normalized in
      if normalized = [] then Inl (SqlValidationError ''SQL is empty.'')
      else if hasMultiStatement normalized
        then Inl (SqlValidationError ''Multi-statement SQL is not allowed.'')
      else if \<not> startsWithSelectOrWith sqlLower
        then Inl (SqlValidationError ''Only SELECT queries are allowed.'')
      else
        (let forbidden = containsForbidden sqlLower in
         if truthy forbidden
           then Inl (SqlValidationError (''Forbidden keyword detected: '' @ the forbidden))
         else if test_select_star normalized
           then Inl (SqlValidationError ''SELECT * is not allowed. Specify columns explicitly.'')
         else
           (let fromTableRaw = extractFromTable normalized in
            if \<not> truthy fromTableRaw then Inl (SqlValidationError ''FROM clause not found.'')
            else
              (let fromTableStripped = stripQuotesTable (the fromTableRaw);
                   allowedTable = find (\<lambda>t. stripQuotesTable t = fromTableStripped)
                                    (map fst (tables allowlist)) in
               if \<not> truthy allowedTable
                 then Inl (SqlValidationError (''Table is not allowlisted: '' @ the fromTableRaw))
               else
                 \<comment> \<open>\<open>allowlist.tables.get(allowedTable)!\<close>: the key was found among the keys,
                     so the lookup succeeds (\<open>validateSql_throws\<close> below); were it
                     \<open>undefined\<close>, \<open>allowedCols.has\<close> would throw a \<open>TypeError\<close>\<close>
                 (case map_of (tables allowlist) (the allowedTable) of
                    None \<Rightarrow> Inl (Error ''Cannot read properties of undefined'')
                  | Some allowedCols \<Rightarrow>
                      (let referenced = findReferencedColumns normalized (the fromTableRaw) in
                       case find (\<lambda>c. c \<notin> allowedCols) referenced of
                         Some c \<Rightarrow>
                           Inl (SqlValidationError (''Column is not allowlisted: '' @ c))
                       | None \<Rightarrow>
                           Inr \<lparr>table = the allowedTable,
                                referencedColumns = referenced\<rparr>))))))"

definition early_rejections :: "string set" where
  \<comment> \<open>the messages of the gates that come before the wildcard check, the empty query apart\<close>
  "early_rejections =
     {''Multi-statement SQL is not allowed.'', ''Only SELECT queries are allowed.''}
     \<union> (\<lambda>k. ''Forbidden keyword detected: '' @ k) ` set FORBIDDEN_KEYWORDS"

section \<open>The catalog and the allowlist\<close>

text \<open>
  An optional property (\<open>?:\<close>, \<open>| null\<close>) is an \<open>option\<close>; \<open>None\<close> stands for both
  \<open>undefined\<close> and \<open>null\<close>, which the code never tells apart. An object used as a
  dictionary is an association list in the order \<open>Object.keys\<close> enumerates it.
\<close>

datatype unknown = UString string | UOther

record ColumnInfo =
  col_description :: "string option"
  data_type :: "string option"
  meta :: "(string \<times> unknown) list option"

record AiCatalogModel =
  name :: string
  description :: "string option"
  domain :: "string option"
  grain :: "string option"
  schema :: "string option"
  relation_name :: "string option"
  dimensions :: "string list option"
  metrics :: "string list option"
  columns :: "(string \<times> ColumnInfo) list"

record AiCatalog =
  version :: int
  generated_at :: string
  models :: "AiCatalogModel list"

definition loadAiCatalog :: "string \<Rightarrow> exn + AiCatalog \<Rightarrow> exn + AiCatalog" where
  \<comment> \<open>\<open>p\<close> is the resolved path and \<open>parsed\<close> what \<open>JSON.parse(fs.readFileSync(p))\<close> gives
      or throws\<close>
  "loadAiCatalog p parsed =
     (case parsed of
        Inl e \<Rightarrow> Inl e
      | Inr json \<Rightarrow>
          if models json = [] then Inl (Error (''ai_catalog.json invalid or empty: '' @ p))
          else Inr json)"

primrec Map_set :: "'k \<Rightarrow> 'v \<Rightarrow> ('k \<times> 'v) list \<Rightarrow> ('k \<times> 'v) list" where
  \<comment> \<open>\<open>Map.prototype.set\<close>: a present key keeps its place, a new key goes last\<close>
  "Map_set k v [] = [(k, v)]"
| "Map_set k v (p # ps) = (if fst p = k then (k, v) # ps else p # Map_set k v ps)"

definition Object_keys :: "(string \<times> 'v) list \<Rightarrow> string list" where
  "Object_keys obj = map fst obj"

definition backtick :: "string \<Rightarrow> string" where
  "backtick s = [CHR 0x60] @ s @ [CHR 0x60]"

definition table_identity :: "AiCatalogModel \<Rightarrow> string" where
  \<comment> \<open>the value of \<open>table\<close> in the loop of \<open>buildAllowlist\<close>\<close>
  "table_identity m =
     (if truthy (relation_name m) \<and> trim (the (relation_name m)) \<noteq> []
        then trim (the (relation_name m))
      else if truthy (schema m) then backtick (the (schema m)) @ ''.'' @ backtick (name m)
      else backtick (name m))"

definition buildAllowlist_step :: "Allowlist \<Rightarrow> AiCatalogModel \<Rightarrow> Allowlist" where
  "buildAllowlist_step al m =
     (let table = table_identity m;
          cols = set (Object_keys (columns m)) in
      \<lparr>tables = Map_set table cols (tables al),
       modelToTable = Map_set (name m) table (modelToTable al)\<rparr>)"

definition buildAllowlist :: "AiCatalog \<Rightarrow> Allowlist" where
  "buildAllowlist catalog =
     foldl buildAllowlist_step \<lparr>tables = [], modelToTable = []\<rparr> (models catalog)"

section \<open>Catalog search\<close>

function split_ws :: "string \<Rightarrow> string list" where
  \<comment> \<open>\<open>s.split(/\s+/)\<close>: empty pieces at both ends are kept\<close>
  "split_ws s =
     (let w = takeWhile (\<lambda>c. \<not> is_space c) s;
          r = dropWhile (\<lambda>c. \<not> is_space c) s in
      if r = [] then [w] else w # split_ws (dropWhile is_space r))"
  by pat_completeness auto
termination
proof (relation "measure length", goal_cases)
  case 1
  show ?case by simp
next
  case (2 s w r)
  from 2(3) obtain a rest where r: "r = a # rest"
    by (cases r) simp_all
  have "dropWhile (\<lambda>c. \<not> is_space c) s \<noteq> []"
    using 2(2) 2(3) by simp
  then have "\<not> \<not> is_space (hd (dropWhile (\<lambda>c. \<not> is_space c) s))"
    by (rule hd_dropWhile)
  then have "is_space (hd r)"
    unfolding 2(2) by simp
  then have "is_space a"
    unfolding r by simp
  then have "length (dropWhile is_space r) < length r"
    using r by (simp add: le_imp_less_Suc length_dropWhile_le)
  moreover have "length r \<le> length s"
    unfolding 2(2) by (rule length_dropWhile_le)
  ultimately show ?case by simp
qed

record CatalogSearchResult =
  model :: AiCatalogModel
  relevanceScore :: int
  matchedFields :: "string list"

definition overlaps :: "string list \<Rightarrow> string \<Rightarrow> bool" where
  \<comment> \<open>the inner loop over the words of the query, left at the first hit:
      \<open>field.includes(word) || word.includes(field)\<close>\<close>
  "overlaps queryWords field =
     (\<exists>word \<in> set queryWords. str_includes field word \<or> str_includes word field)"

definition credit :: "int \<Rightarrow> string \<Rightarrow> int \<times> string list \<Rightarrow> int \<times> string list" where
  \<comment> \<open>\<open>score += n; if (!matchedFields.includes(f)) matchedFields.push(f)\<close>\<close>
  "credit n f acc =
     (fst acc + n, if f \<in> set (snd acc) then snd acc else snd acc @ [f])"

definition calculateRelevanceScore :: "AiCatalogModel \<Rightarrow> string \<Rightarrow> int \<times> string list" where
  "calculateRelevanceScore m query =
     (let queryLower = toLowerCase query;
          queryWords = split_ws queryLower;
          s0 = (0, []);
          s1 = (if truthy (description m) then
                  (let descLower = toLowerCase (the (description m)) in
                   if str_includes descLower queryLower
                      \<or> (\<exists>word \<in> set queryWords. str_includes descLower word)
                   then (fst s0 + 10, snd s0 @ [''description'']) else s0)
                else s0);
          s2 = (case metrics m of
                  None \<Rightarrow> s1
                | Some ms \<Rightarrow>
                    foldl (\<lambda>acc metric. if overlaps queryWords metric
                                        then credit 5 ''metrics'' acc else acc)
                      s1 (map toLowerCase ms));
          s3 = (case dimensions m of
                  None \<Rightarrow> s2
                | Some ds \<Rightarrow>
                    foldl (\<lambda>acc dim. if overlaps queryWords dim
                                     then credit 3 ''dimensions'' acc else acc)
                      s2 (map toLowerCase ds));
          s4 = (if truthy (grain m) then
                  (let grainLower = toLowerCase (the (grain m)) in
                   if str_includes queryLower grainLower \<or> str_includes grainLower queryLower
                   then (fst s3 + 4, snd s3 @ [''grain'']) else s3)
                else s3);
          s5 = (if truthy (domain m) then
                  (let domainLower = toLowerCase (the (domain m)) in
                   if str_includes queryLower domainLower
                   then (fst s4 + 2, snd s4 @ [''domain'']) else s4)
                else s4);
          s6 = foldl (\<lambda>acc (colName, colInfo).
                        if truthy (col_description colInfo)
                           \<and> overlaps queryWords (toLowerCase (the (col_description colInfo)))
                        then credit 2 ''columns'' acc else acc)
                 s5 (columns m)
      in s6)"

definition score_hit :: "AiCatalogModel \<Rightarrow> string \<Rightarrow> CatalogSearchResult option" where
  \<comment> \<open>the body of the loop of \<open>searchCatalog\<close>: what is pushed for a model, if anything\<close>
  "score_hit m query =
     (let r = calculateRelevanceScore m query in
      if fst r > 0 then Some \<lparr>model = m, relevanceScore = fst r, matchedFields = snd r\<rparr>
      else None)"

definition sort_by_score_desc :: "CatalogSearchResult list \<Rightarrow> CatalogSearchResult list" where
  \<comment> \<open>\<open>results.sort((a, b) => b.relevanceScore - a.relevanceScore)\<close>; \<open>Array.prototype.sort\<close>
      is stable, as insertion by key is\<close>
  "sort_by_score_desc results = sort_key (\<lambda>r. - relevanceScore r) results"

definition rank_models :: "AiCatalogModel list \<Rightarrow> string \<Rightarrow> CatalogSearchResult list" where
  \<comment> \<open>\<open>searchCatalog\<close> after the catalog is loaded\<close>
  "rank_models ms query = sort_by_score_desc (List.map_filter (\<lambda>m. score_hit m query) ms)"

definition searchCatalog ::
  "string \<Rightarrow> exn + AiCatalog \<Rightarrow> string \<Rightarrow> exn + CatalogSearchResult list" where
  "searchCatalog p parsed query =
     (case loadAiCatalog p parsed of
        Inl e \<Rightarrow> Inl e
      | Inr catalog \<Rightarrow> Inr (rank_models (models catalog) query))"

section \<open>The SQL generator\<close>

definition Object_prototype_keys :: "string list" where
  \<comment> \<open>the properties every plain object inherits: \<open>obj[k]\<close> is truthy for these keys too\<close>
  "Object_prototype_keys =
     [''constructor'', ''hasOwnProperty'', ''isPrototypeOf'', ''propertyIsEnumerable'',
      ''toLocaleString'', ''toString'', ''valueOf'', ''__proto__'', ''__defineGetter__'',
      ''__defineSetter__'', ''__lookupGetter__'', ''__lookupSetter__'']"

definition has_column :: "AiCatalogModel \<Rightarrow> string \<Rightarrow> bool" where
  \<comment> \<open>\<open>model.columns[k]\<close> used as a condition\<close>
  "has_column m k = (k \<in> set (Object_keys (columns m)) \<or> k \<in> set Object_prototype_keys)"

definition metric_projection :: "AiCatalogModel \<Rightarrow> string \<Rightarrow> string" where
  "metric_projection m metric =
     (let colMeta = (case map_of (columns m) metric of None \<Rightarrow> None | Some colInfo \<Rightarrow> meta colInfo);
          isSum = ((case colMeta of
                      None \<Rightarrow> False
                    | Some mt \<Rightarrow> map_of mt ''type'' = Some (UString ''metric''))
                   \<and> (str_includes (toLowerCase metric) ''total''
                        \<or> str_includes (toLowerCase metric) ''sum''));
          aggregation = (if isSum then ''sum'' else ''avg'')
      in aggregation @ ''('' @ metric @ '') AS '' @ metric)"

definition looks_numeric :: "ColumnInfo \<Rightarrow> bool" where
  \<comment> \<open>\<open>data_type?.toLowerCase().includes('float') || data_type?.toLowerCase().includes('int')\<close>\<close>
  "looks_numeric colInfo =
     (case data_type colInfo of
        None \<Rightarrow> False
      | Some t \<Rightarrow> str_includes (toLowerCase t) ''float'' \<or> str_includes (toLowerCase t) ''int'')"

definition dimensions_or_empty :: "AiCatalogModel \<Rightarrow> string list" where
  \<comment> \<open>\<open>model.dimensions || []\<close>\<close>
  "dimensions_or_empty m = (case dimensions m of None \<Rightarrow> [] | Some ds \<Rightarrow> ds)"

definition metrics_or_empty :: "AiCatalogModel \<Rightarrow> string list" where
  \<comment> \<open>\<open>model.metrics || []\<close>\<close>
  "metrics_or_empty m = (case metrics m of None \<Rightarrow> [] | Some ms \<Rightarrow> ms)"

definition selected_dimensions :: "AiCatalogModel \<Rightarrow> string list" where
  \<comment> \<open>what the loop over the dimensions pushes\<close>
  "selected_dimensions m = filter (has_column m) (dimensions_or_empty m)"

definition selected_metrics :: "AiCatalogModel \<Rightarrow> string list" where
  \<comment> \<open>what the loop over the metrics pushes\<close>
  "selected_metrics m = map (metric_projection m) (filter (has_column m) (metrics_or_empty m))"

definition fallback_projection :: "AiCatalogModel \<Rightarrow> string list" where
  \<comment> \<open>what the loop over \<open>Object.entries(model.columns)\<close> pushes\<close>
  "fallback_projection m =
     concat (map (\<lambda>(colName, colInfo).
                    if looks_numeric colInfo then [''avg('' @ colName @ '') AS '' @ colName]
                    else if colName \<in> set (dimensions_or_empty m) then [colName]
                    else [])
              (columns m))"

definition selectParts_of :: "AiCatalogModel \<Rightarrow> string list" where
  \<comment> \<open>\<open>selectParts\<close> when the check for \<open>NO_COLUMNS\<close> is reached\<close>
  "selectParts_of m =
     (let selectParts = selected_dimensions m @ selected_metrics m in
      if length selectParts = 0 then fallback_projection m else selectParts)"

definition build_sql :: "AiCatalogModel \<Rightarrow> string list \<Rightarrow> string" where
  \<comment> \<open>the text of the query, from \<open>groupByParts\<close> to the \<open>ORDER BY\<close> clause\<close>
  "build_sql m selectParts =
     (let groupByParts = filter (has_column m) (dimensions_or_empty m);
          sql0 = ''SELECT '' @ join '', '' selectParts
                 @ [CHR 0x0A] @ ''FROM '' @ the (relation_name m);
          sql1 = (if length groupByParts > 0
                  then sql0 @ [CHR 0x0A] @ ''GROUP BY '' @ join '', '' groupByParts else sql0);
          sql2 = (if length groupByParts > 0
                  then sql1 @ [CHR 0x0A] @ ''ORDER BY '' @ hd groupByParts
                  else if length (metrics_or_empty m) > 0
                  then sql1 @ [CHR 0x0A] @ ''ORDER BY '' @ hd (metrics_or_empty m) @ '' DESC''
                  else sql1)
      in sql2)"

section \<open>The orchestrator\<close>

record 'r QueryResult =
  rowCount :: nat
  rows :: "'r list"

record RunOptions =
  maxRows :: nat
  maxExecutionTimeSeconds :: nat

text \<open>
  The execution client \<open>runSelect\<close> is outside the program: it is a parameter, and every
  call of it is written to a log, so that a run returns its result and the calls it made.
\<close>

datatype event = RunSelect string RunOptions

datatype 'r ToolResult =
    QuerySuccess string "string option" "string option" string ValidatedQuery "'r QueryResult"
  | SqlSuccess string "string list" nat "'r list"
  | Failure string string

definition on_error :: "exn \<Rightarrow> 'r ToolResult" where
  \<comment> \<open>the \<open>catch\<close> block of both tools\<close>
  "on_error e =
     (case e of
        SqlValidationError msg \<Rightarrow> Failure ''SQL_VALIDATION_ERROR'' msg
      | Error msg \<Rightarrow> Failure ''EXECUTION_ERROR'' msg
      | NonError \<Rightarrow> Failure ''UNKNOWN_ERROR'' ''An unknown error occurred'')"

definition run_options :: RunOptions where
  "run_options = \<lparr>maxRows = 10000, maxExecutionTimeSeconds = 30\<rparr>"

definition queryExecutor_try ::
  "string \<Rightarrow> exn + AiCatalog \<Rightarrow> exn + AiCatalog \<Rightarrow> (string \<Rightarrow> RunOptions \<Rightarrow> exn + 'r QueryResult)
   \<Rightarrow> string \<Rightarrow> (exn + 'r ToolResult) \<times> event list" where
  \<comment> \<open>the \<open>try\<close> block of \<open>queryExecutorTool.execute\<close>; \<open>parsed1\<close> and \<open>parsed2\<close> are what
      the first and the second reading of the catalog file give\<close>
  "queryExecutor_try p parsed1 parsed2 runSelect query =
     (case searchCatalog p parsed1 query of
        Inl e \<Rightarrow> (Inl e, [])
      | Inr catalogResults \<Rightarrow>
          (case catalogResults of
             [] \<Rightarrow>
               (Inr (Failure ''NO_MODEL_FOUND''
                       (''No matching models found for query: '' @ [CHR 0x22] @ query @ [CHR 0x22])),
                [])
           | first # others \<Rightarrow>
               (let m = model first in
                if \<not> truthy (relation_name m) then
                  (Inr (Failure ''NO_RELATION_NAME''
                          (''Model '' @ name m @ '' has no relation_name'')), [])
                else
                  (let selectParts = selectParts_of m in
                   if length selectParts = 0 then
                     (Inr (Failure ''NO_COLUMNS''
                             (''Model '' @ name m @ '' has no usable columns'')), [])
                   else
                     (let sql = build_sql m selectParts in
                      case loadAiCatalog p parsed2 of
                        Inl e \<Rightarrow> (Inl e, [])
                      | Inr catalog \<Rightarrow>
                          (let allowlist = buildAllowlist catalog in
                           case validateSql sql allowlist of
                             Inl e \<Rightarrow> (Inl e, [])
                           | Inr validation \<Rightarrow>
                               (case runSelect sql run_options of
                                  Inl e \<Rightarrow> (Inl e, [RunSelect sql run_options])
                                | Inr result \<Rightarrow>
                                    (Inr (QuerySuccess (name m) (description m)
                                            (relation_name m) sql validation result),
                                     [RunSelect sql run_options]))))))))"

definition queryExecutor_execute ::
  "string \<Rightarrow> exn + AiCatalog \<Rightarrow> exn + AiCatalog \<Rightarrow> (string \<Rightarrow> RunOptions \<Rightarrow> exn + 'r QueryResult)
   \<Rightarrow> string \<Rightarrow> 'r ToolResult \<times> event list" where
  "queryExecutor_execute p parsed1 parsed2 runSelect query =
     (case queryExecutor_try p parsed1 parsed2 runSelect query of
        (Inl e, calls) \<Rightarrow> (on_error e, calls)
      | (Inr r, calls) \<Rightarrow> (r, calls))"

definition sqlExecutor_try ::
  "string \<Rightarrow> exn + AiCatalog \<Rightarrow> (string \<Rightarrow> RunOptions \<Rightarrow> exn + 'r QueryResult)
   \<Rightarrow> string \<Rightarrow> (exn + 'r ToolResult) \<times> event list" where
  \<comment> \<open>the \<open>try\<close> block of \<open>sqlExecutorTool.execute\<close>\<close>
  "sqlExecutor_try p parsed runSelect sql =
     (case loadAiCatalog p parsed of
        Inl e \<Rightarrow> (Inl e, [])
      | Inr catalog \<Rightarrow>
          (let allowlist = buildAllowlist catalog in
           case validateSql sql allowlist of
             Inl e \<Rightarrow> (Inl e, [])
           | Inr validation \<Rightarrow>
               (case runSelect sql run_options of
                  Inl e \<Rightarrow> (Inl e, [RunSelect sql run_options])
                | Inr result \<Rightarrow>
                    (Inr (SqlSuccess (table validation) (referencedColumns validation)
                            (rowCount result) (rows result)),
                     [RunSelect sql run_options]))))"

definition sqlExecutor_execute ::
  "string \<Rightarrow> exn + AiCatalog \<Rightarrow> (string \<Rightarrow> RunOptions \<Rightarrow> exn + 'r QueryResult)
   \<Rightarrow> string \<Rightarrow> 'r ToolResult \<times> event list" where
  "sqlExecutor_execute p parsed runSelect sql =
     (case sqlExecutor_try p parsed runSelect sql of
        (Inl e, calls) \<Rightarrow> (on_error e, calls)
      | (Inr r, calls) \<Rightarrow> (r, calls))"

section \<open>Example catalogs\<close>

definition plain_column :: "string option \<Rightarrow> ColumnInfo" where
  "plain_column t = \<lparr>col_description = None, data_type = t, meta = None\<rparr>"

definition ltv_model :: AiCatalogModel where
  "ltv_model =
     \<lparr>name = ''ltv_weekly'', description = None, domain = None, grain = None,
      schema = Some ''db'', relation_name = Some (backtick ''db'' @ ''.'' @ backtick ''ltv_weekly''),
      dimensions = Some [''week''], metrics = Some [''avg_ltv_12''],
      columns = [(''week'', plain_column (Some ''Date'')),
                 (''avg_ltv_12'', plain_column (Some ''Float64''))]\<rparr>"

definition users_model :: AiCatalogModel where
  "users_model =
     \<lparr>name = ''users'', description = None, domain = None, grain = None,
      schema = None, relation_name = None,
      dimensions = Some [''country''], metrics = None,
      columns = [(''country'', plain_column (Some ''String''))]\<rparr>"

definition costs_model :: AiCatalogModel where
  "costs_model =
     \<lparr>name = ''costs'', description = Some ''Costs per week'', domain = None, grain = None,
      schema = Some ''db'', relation_name = None,
      dimensions = Some [''week''], metrics = Some [],
      columns = [(''week'', plain_column (Some ''Date'')),
                 (''revenue'', plain_column (Some ''Float64''))]\<rparr>"

definition ltv_copy :: AiCatalogModel where
  "ltv_copy =
     \<lparr>name = ''ltv_copy'', description = None, domain = None, grain = None,
      schema = None,
      relation_name = Some ('' '' @ backtick ''db'' @ ''.'' @ backtick ''ltv_weekly'' @ '' ''),
      dimensions = Some [''week''], metrics = None,
      columns = [(''week'', plain_column (Some ''Date'')),
                 (''revenue'', plain_column (Some ''Float64''))]\<rparr>"

definition example_catalog :: AiCatalog where
  "example_catalog =
     \<lparr>version = 1, generated_at = ''2024-01-01T00:00:00Z'',
      models = [ltv_model, users_model, costs_model, ltv_copy]\<rparr>"

definition revenue_model :: AiCatalogModel where
  \<comment> \<open>one dimension, no metric, one numeric column that is neither\<close>
  "revenue_model = costs_model\<lparr>relation_name := Some (backtick ''db'' @ ''.'' @ backtick ''costs'')\<rparr>"

definition sales_model :: AiCatalogModel where
  "sales_model =
     \<lparr>name = ''T'', description = Some ''sales'', domain = None, grain = None,
      schema = None, relation_name = Some ''T'',
      dimensions = Some [''a''], metrics = Some [''b''],
      columns = [(''a'', plain_column None), (''b'', plain_column (Some ''Float64''))]\<rparr>"

definition updates_model :: AiCatalogModel where
  \<comment> \<open>a dimension whose name is a forbidden keyword\<close>
  "updates_model =
     \<lparr>name = ''S'', description = Some ''sales'', domain = None, grain = None,
      schema = None, relation_name = Some ''S'',
      dimensions = Some [''update''], metrics = None,
      columns = [(''update'', plain_column None)]\<rparr>"

definition catalog_of :: "AiCatalogModel \<Rightarrow> AiCatalog" where
  "catalog_of m = \<lparr>version = 1, generated_at = ''2024-01-01T00:00:00Z'', models = [m]\<rparr>"

definition no_rows :: "string \<Rightarrow> RunOptions \<Rightarrow> exn + unit QueryResult" where
  \<comment> \<open>an execution client that answers every query with no rows\<close>
  "no_rows sql opts = Inr \<lparr>rowCount = 0, rows = []\<rparr>"

section \<open>Characters under lower-casing\<close>

lemma of_char_toLowerCase_char:
  "(of_char (toLowerCase_char c) :: nat) =
     (let n = of_char c in
      if (65 \<le> n \<and> n \<le> 90) \<or> (192 \<le> n \<and> n \<le> 222 \<and> n \<noteq> 215) then n + 32 else n)"
  unfolding toLowerCase_char_def Let_def
  by (simp add: of_char_of)

lemma toLowerCase_char_dot: "toLowerCase_char c = CHR ''.'' \<longleftrightarrow> c = CHR ''.''"
proof
  assume a: "toLowerCase_char c = CHR ''.''"
  have "(of_char (toLowerCase_char c) :: nat) = 46" unfolding a by simp
  then have "(of_char c :: nat) = 46"
    unfolding of_char_toLowerCase_char Let_def by (simp split: if_splits)
  then have "char_of (of_char c :: nat) = char_of (46 :: nat)" by (simp only:)
  moreover have "char_of (46 :: nat) = CHR ''.''" by (simp add: char_of_def bit_Suc_0_iff)
  ultimately show "c = CHR ''.''" by simp
next
  assume "c = CHR ''.''"
  then show "toLowerCase_char c = CHR ''.''" by (simp add: toLowerCase_char_def)
qed

section \<open>The forbidden-keyword scan\<close>

lemma test_word_Nil: "\<not> test_word kw []"
  by (simp add: test_word_def word_at_def word_boundary_def is_word_opt_def)

lemma forbidden_keyword_nonempty: "k \<in> set FORBIDDEN_KEYWORDS \<Longrightarrow> k \<noteq> []"
  by (auto simp: FORBIDDEN_KEYWORDS_def)

lemma containsForbidden_hit:
  assumes "kw \<in> set FORBIDDEN_KEYWORDS" and "test_word kw s"
  shows "\<exists>k \<in> set FORBIDDEN_KEYWORDS. containsForbidden s = Some k"
proof (cases "containsForbidden s")
  case None
  then show ?thesis using assms by (auto simp: containsForbidden_def find_None_iff)
next
  case (Some k)
  then have "k \<in> set FORBIDDEN_KEYWORDS"
    unfolding containsForbidden_def by (auto simp: find_Some_iff)
  with Some show ?thesis by simp
qed

section \<open>Evaluation on literals\<close>

text \<open>Unfolding sets for running the definitions on concrete strings.\<close>

lemmas char_eval = is_word_def is_ident_start_def is_line_terminator_def is_space_def
  toLowerCase_char_def canonicalize_def char_of_def bit_Suc_0_iff is_table_char_def
  is_word_opt_def word_boundary_def last_char_def

lemmas gate_eval = hasMultiStatement_def startsWithSelectOrWith_def truthy_def
  stripQuotesTable_def

lemmas scan_eval = containsForbidden_def FORBIDDEN_KEYWORDS_def test_word_def word_at_def

lemmas column_eval = findReferencedColumns_def column_of_token_def fromParts_of_def
  stripQuotesTable_def toLowerCase_def trim_def stop_def FORBIDDEN_KEYWORDS_def set_add_def

lemmas model_eval = ltv_model_def users_model_def costs_model_def ltv_copy_def
  revenue_model_def sales_model_def updates_model_def plain_column_def backtick_def

lemmas score_eval = calculateRelevanceScore_def overlaps_def credit_def truthy_def
  toLowerCase_def

lemmas generator_eval = selectParts_of_def selected_dimensions_def selected_metrics_def
  fallback_projection_def dimensions_or_empty_def metrics_or_empty_def has_column_def
  Object_keys_def Object_prototype_keys_def metric_projection_def looks_numeric_def
  build_sql_def toLowerCase_def

section \<open>The single-statement gate\<close>

lemma normalize_scenario_C:
  "normalize ''SELECT a FROM allowedT; DROP TABLE allowedT''
     = ''SELECT a FROM allowedT; DROP TABLE allowedT''"
  by (simp add: normalize_def trim_def char_eval)

lemma normalize_trailing: "normalize ''SELECT a FROM t;'' = ''SELECT a FROM t;''"
  by (simp add: normalize_def trim_def char_eval)

text \<open>
  Claim C3. Whenever the normalized text (comments stripped, whitespace collapsed, trimmed)
  holds a semicolon, \<open>validateSql\<close> throws the multi-statement error, for every allowlist
  and wherever the semicolon stands, a trailing one included. The query
  \<open>SELECT a FROM allowedT; DROP TABLE allowedT\<close> is rejected with that reason whatever the
  allowlist holds, so before the table and column gates are consulted.
\<close>

theorem multi_statement_rejected:
  "(CHR '';'' \<in> set (normalize sql) \<longrightarrow>
      validateSql sql allowlist = Inl (SqlValidationError ''Multi-statement SQL is not allowed.''))
   \<and> validateSql ''SELECT a FROM allowedT; DROP TABLE allowedT'' allowlist
       = Inl (SqlValidationError ''Multi-statement SQL is not allowed.'')"
proof -
  have g: "validateSql s al = Inl (SqlValidationError ''Multi-statement SQL is not allowed.'')"
    if "CHR '';'' \<in> set (normalize s)" for s al
    using that unfolding validateSql_def Let_def hasMultiStatement_def by auto
  have "CHR '';'' \<in> set (normalize ''SELECT a FROM allowedT; DROP TABLE allowedT'')"
    unfolding normalize_scenario_C by simp
  with g show ?thesis by blast
qed

theorem multi_statement_rejected_witness:
  "CHR '';'' \<in> set (normalize ''SELECT a FROM t;'')
   \<and> validateSql ''SELECT a FROM t;'' \<lparr>tables = [(''t'', {''a''})], modelToTable = []\<rparr>
       = Inl (SqlValidationError ''Multi-statement SQL is not allowed.'')"
proof -
  have h: "CHR '';'' \<in> set (normalize ''SELECT a FROM t;'')"
    unfolding normalize_trailing by simp
  with multi_statement_rejected [of "''SELECT a FROM t;''" "\<lparr>tables = [(''t'', {''a''})], modelToTable = []\<rparr>"]
  show ?thesis by blast
qed

section \<open>The stages of the validator on the queries of the claims\<close>

lemma norm_wildcard: "normalize ''SELECT * FROM T'' = ''SELECT * FROM T''"
  by (simp add: normalize_def trim_def char_eval)

lemma lower_wildcard: "lower ''SELECT * FROM T'' = ''select * from t''"
  by (simp add: lower_def toLowerCase_def char_eval)

lemma scan_wildcard: "containsForbidden ''select * from t'' = None"
  by (simp add: scan_eval char_eval)

lemma star_wildcard: "test_select_star ''SELECT * FROM T'' = True"
  by (simp add: test_select_star_def select_star_at_def char_eval)

lemma norm_unknown: "normalize ''SELECT x FROM unknown_table'' = ''SELECT x FROM unknown_table''"
  by (simp add: normalize_def trim_def char_eval)

lemma lower_unknown: "lower ''SELECT x FROM unknown_table'' = ''select x from unknown_table''"
  by (simp add: lower_def toLowerCase_def char_eval)

lemma scan_unknown: "containsForbidden ''select x from unknown_table'' = None"
  by (simp add: scan_eval char_eval)

lemma star_unknown: "test_select_star ''SELECT x FROM unknown_table'' = False"
  by (simp add: test_select_star_def select_star_at_def char_eval)

lemma from_unknown: "extractFromTable ''SELECT x FROM unknown_table'' = Some ''unknown_table''"
  by (simp add: extractFromTable_def from_at_def char_eval)

lemma norm_a_c: "normalize ''SELECT a, c FROM T'' = ''SELECT a, c FROM T''"
  by (simp add: normalize_def trim_def char_eval)

lemma lower_a_c: "lower ''SELECT a, c FROM T'' = ''select a, c from t''"
  by (simp add: lower_def toLowerCase_def char_eval)

lemma scan_a_c: "containsForbidden ''select a, c from t'' = None"
  by (simp add: scan_eval char_eval)

lemma star_a_c: "test_select_star ''SELECT a, c FROM T'' = False"
  by (simp add: test_select_star_def select_star_at_def char_eval)

lemma from_a_c: "extractFromTable ''SELECT a, c FROM T'' = Some ''T''"
  by (simp add: extractFromTable_def from_at_def char_eval)

lemma tokens_a_c: "ident_tokens ''SELECT a, c FROM T'' = [''SELECT'', ''a'', ''c'', ''FROM'', ''T'']"
  by (simp add: char_eval)

lemma cols_a_c: "findReferencedColumns ''SELECT a, c FROM T'' ''T'' = [''a'', ''c'']"
  unfolding findReferencedColumns_def tokens_a_c
  by (simp add: column_eval char_eval)

lemma norm_a_b: "normalize ''SELECT a, b FROM T'' = ''SELECT a, b FROM T''"
  by (simp add: normalize_def trim_def char_eval)

lemma lower_a_b: "lower ''SELECT a, b FROM T'' = ''select a, b from t''"
  by (simp add: lower_def toLowerCase_def char_eval)

lemma scan_a_b: "containsForbidden ''select a, b from t'' = None"
  by (simp add: scan_eval char_eval)

lemma star_a_b: "test_select_star ''SELECT a, b FROM T'' = False"
  by (simp add: test_select_star_def select_star_at_def char_eval)

lemma from_a_b: "extractFromTable ''SELECT a, b FROM T'' = Some ''T''"
  by (simp add: extractFromTable_def from_at_def char_eval)

lemma tokens_a_b: "ident_tokens ''SELECT a, b FROM T'' = [''SELECT'', ''a'', ''b'', ''FROM'', ''T'']"
  by (simp add: char_eval)

lemma cols_a_b: "findReferencedColumns ''SELECT a, b FROM T'' ''T'' = [''a'', ''b'']"
  unfolding findReferencedColumns_def tokens_a_b
  by (simp add: column_eval char_eval)

lemma norm_commented: "normalize ''SELECT a FROM t -- drop'' = ''SELECT a FROM t''"
  by (simp add: normalize_def trim_def char_eval)

lemma lower_commented: "lower ''SELECT a FROM t'' = ''select a from t''"
  by (simp add: lower_def toLowerCase_def char_eval)

lemma scan_commented: "containsForbidden ''select a from t'' = None"
  by (simp add: scan_eval char_eval)

lemma star_commented: "test_select_star ''SELECT a FROM t'' = False"
  by (simp add: test_select_star_def select_star_at_def char_eval)

lemma from_commented: "extractFromTable ''SELECT a FROM t'' = Some ''t''"
  by (simp add: extractFromTable_def from_at_def char_eval)

lemma tokens_commented: "ident_tokens ''SELECT a FROM t'' = [''SELECT'', ''a'', ''FROM'', ''t'']"
  by (simp add: char_eval)

lemma cols_commented: "findReferencedColumns ''SELECT a FROM t'' ''t'' = [''a'']"
  unfolding findReferencedColumns_def tokens_commented
  by (simp add: column_eval char_eval)

lemma norm_t_a: "normalize ''SELECT t, a FROM t'' = ''SELECT t, a FROM t''"
  by (simp add: normalize_def trim_def char_eval)

lemma lower_t_a: "lower ''SELECT t, a FROM t'' = ''select t, a from t''"
  by (simp add: lower_def toLowerCase_def char_eval)

lemma scan_t_a: "containsForbidden ''select t, a from t'' = None"
  by (simp add: scan_eval char_eval)

lemma star_t_a: "test_select_star ''SELECT t, a FROM t'' = False"
  by (simp add: test_select_star_def select_star_at_def char_eval)

lemma from_t_a: "extractFromTable ''SELECT t, a FROM t'' = Some ''t''"
  by (simp add: extractFromTable_def from_at_def char_eval)

lemma tokens_t_a: "ident_tokens ''SELECT t, a FROM t'' = [''SELECT'', ''t'', ''a'', ''FROM'', ''t'']"
  by (simp add: char_eval)

lemma cols_t_a: "findReferencedColumns ''SELECT t, a FROM t'' ''t'' = [''a'']"
  unfolding findReferencedColumns_def tokens_t_a
  by (simp add: column_eval char_eval)

section \<open>Column extraction and accepted queries\<close>

lemma split_on_nonempty: "split_on d s \<noteq> []"
  by (induction s) (auto split: list.splits)

lemma split_on_map:
  assumes "\<And>c. f c = d \<longleftrightarrow> c = d"
  shows "split_on d (map f s) = map (map f) (split_on d s)"
proof (induction s)
  case Nil
  show ?case by simp
next
  case (Cons c cs)
  show ?case
  proof (cases "c = d")
    case True
    then show ?thesis using Cons assms by simp
  next
    case False
    then have "f c \<noteq> d" using assms by simp
    then show ?thesis
      using False Cons split_on_nonempty [of d cs]
      by (cases "split_on d cs") simp_all
  qed
qed

lemma split_on_no_separator: "d \<notin> set s \<Longrightarrow> split_on d s = [s]"
  by (induction s) auto

lemma toLowerCase_split:
  "split_on (CHR ''.'') (toLowerCase s) = map toLowerCase (split_on (CHR ''.'') s)"
proof -
  have "split_on (CHR ''.'') (map toLowerCase_char s)
          = map (map toLowerCase_char) (split_on (CHR ''.'') s)"
    by (rule split_on_map) (rule toLowerCase_char_dot)
  then show ?thesis
    unfolding toLowerCase_def [abs_def] by simp
qed

lemma column_of_token_part:
  assumes "column_of_token fromTable tok = Some c"
  shows "toLowerCase c \<in> set (split_on (CHR ''.'') (toLowerCase tok))"
proof (cases "CHR ''.'' \<in> set tok")
  case True
  with assms have c: "c = last (split_on (CHR ''.'') tok)"
    unfolding column_of_token_def Let_def by (auto split: if_splits)
  have "last (split_on (CHR ''.'') tok) \<in> set (split_on (CHR ''.'') tok)"
    using split_on_nonempty by (rule last_in_set)
  then show ?thesis
    unfolding toLowerCase_split c by simp
next
  case False
  with assms have c: "c = tok"
    unfolding column_of_token_def Let_def by (auto split: if_splits)
  from False show ?thesis
    unfolding toLowerCase_split c by (simp add: split_on_no_separator)
qed

lemma column_of_token_skips:
  assumes "\<exists>part \<in> set (split_on (CHR ''.'') (toLowerCase tok)). part \<in> set (fromParts_of fromTable)"
  shows "column_of_token fromTable tok = None"
  using assms unfolding column_of_token_def Let_def by auto

lemma column_of_token_not_table:
  assumes "column_of_token fromTable tok = Some c"
  shows "toLowerCase c \<notin> set (fromParts_of fromTable)"
proof
  assume "toLowerCase c \<in> set (fromParts_of fromTable)"
  with column_of_token_part [OF assms]
  have "column_of_token fromTable tok = None"
    by (intro column_of_token_skips) blast
  with assms show False by simp
qed

lemma collected_columns:
  "set (foldl (\<lambda>cols tok. case column_of_token fromTable tok of
                              None \<Rightarrow> cols | Some c \<Rightarrow> set_add cols c) acc toks)
     \<subseteq> set acc \<union> {c. \<exists>tok \<in> set toks. column_of_token fromTable tok = Some c}"
proof (induction toks arbitrary: acc)
  case Nil
  show ?case by simp
next
  case (Cons t ts)
  show ?case
  proof (cases "column_of_token fromTable t")
    case None
    then show ?thesis using Cons [of acc] by auto
  next
    case (Some c)
    have "set (set_add acc c) \<subseteq> insert c (set acc)"
      by (auto simp: set_add_def)
    with Some show ?thesis using Cons [of "set_add acc c"] by auto
  qed
qed

lemma findReferencedColumns_not_table:
  assumes "c \<in> set (findReferencedColumns normalizedSql fromTable)"
  shows "toLowerCase c \<notin> set (fromParts_of fromTable)"
proof -
  from assms collected_columns [of fromTable "[]" "ident_tokens normalizedSql"]
  obtain tok where "column_of_token fromTable tok = Some c"
    unfolding findReferencedColumns_def by auto
  then show ?thesis by (rule column_of_token_not_table)
qed

lemma validateSql_accepts:
  assumes "validateSql sql allowlist = Inr v"
  shows "\<exists>raw cols. extractFromTable (normalize sql) = Some raw
           \<and> find (\<lambda>t. stripQuotesTable t = stripQuotesTable raw) (map fst (tables allowlist))
               = Some (table v)
           \<and> map_of (tables allowlist) (table v) = Some cols
           \<and> referencedColumns v = findReferencedColumns (normalize sql) raw
           \<and> set (referencedColumns v) \<subseteq> cols"
proof -
  from assms obtain raw where raw: "extractFromTable (normalize sql) = Some raw"
    unfolding validateSql_def Let_def truthy_def
    by (auto split: if_splits option.splits)
  from assms raw obtain t where t:
    "find (\<lambda>t. stripQuotesTable t = stripQuotesTable raw) (map fst (tables allowlist)) = Some t"
    unfolding validateSql_def Let_def truthy_def
    by (auto split: if_splits option.splits)
  from assms raw t obtain cols where cols: "map_of (tables allowlist) t = Some cols"
    unfolding validateSql_def Let_def truthy_def
    by (auto split: if_splits option.splits)
  from assms raw t cols
  have n: "find (\<lambda>c. c \<notin> cols) (findReferencedColumns (normalize sql) raw) = None"
    and v: "v = \<lparr>table = t, referencedColumns = findReferencedColumns (normalize sql) raw\<rparr>"
    unfolding validateSql_def Let_def truthy_def
    by (auto split: if_splits option.splits)
  from n have "set (findReferencedColumns (normalize sql) raw) \<subseteq> cols"
    by (auto simp: find_None_iff)
  with raw t cols v show ?thesis by auto
qed

section \<open>The keyword gate and the wildcard gate\<close>

lemma norm_keyword: "normalize ''SELECT a FROM t WHERE KILL = 1'' = ''SELECT a FROM t WHERE KILL = 1''"
  by (simp add: normalize_def trim_def char_eval)

lemma lower_keyword:
  "lower ''SELECT a FROM t WHERE KILL = 1'' = ''select a from t where kill = 1''"
  by (simp add: lower_def toLowerCase_def char_eval)

lemma word_keyword: "test_word ''kill'' ''select a from t where kill = 1''"
  by (simp add: test_word_def word_at_def char_eval)

lemma word_commented: "test_word ''drop'' ''SELECT a FROM t -- drop''"
  by (simp add: test_word_def word_at_def char_eval)

lemma lower_Nil: "lower s = [] \<longleftrightarrow> s = []"
  by (simp add: lower_def toLowerCase_def)

text \<open>
  Claim C1, as amended. The scan for forbidden keywords reads \<open>sqlLower\<close>, the normalized
  text (comments stripped, whitespace collapsed, trimmed) after \<open>toLowerCase\<close>, so the
  guarantee is about that text: whenever it holds a denylisted keyword as a whole word,
  \<open>validateSql\<close> throws a \<open>SqlValidationError\<close>, for every allowlist. The error is the one of
  the multi-statement gate, of the read-only gate, or of the keyword scan itself. The
  proof uses nothing of lower-casing but that it maps the empty text, and no other, to
  the empty text.
\<close>

theorem forbidden_keyword_rejected:
  assumes "kw \<in> set FORBIDDEN_KEYWORDS" and "test_word kw (lower (normalize sql))"
  shows "validateSql sql allowlist \<in> (\<lambda>msg. Inl (SqlValidationError msg)) ` early_rejections"
proof -
  have "lower (normalize sql) \<noteq> []"
    using assms(2) test_word_Nil by auto
  then have ne: "normalize sql \<noteq> []"
    by (simp add: lower_Nil)
  from assms obtain k where k: "k \<in> set FORBIDDEN_KEYWORDS"
      "containsForbidden (lower (normalize sql)) = Some k"
    using containsForbidden_hit by blast
  then have t: "truthy (containsForbidden (lower (normalize sql)))"
    by (simp add: truthy_def forbidden_keyword_nonempty)
  show ?thesis
    using ne t k unfolding validateSql_def Let_def early_rejections_def by auto
qed

theorem forbidden_keyword_rejected_witness:
  "''kill'' \<in> set FORBIDDEN_KEYWORDS
   \<and> lower (normalize ''SELECT a FROM t WHERE KILL = 1'') = ''select a from t where kill = 1''
   \<and> test_word ''kill'' (lower (normalize ''SELECT a FROM t WHERE KILL = 1''))
   \<and> validateSql ''SELECT a FROM t WHERE KILL = 1''
         \<lparr>tables = [(''t'', {''a'', ''kill''})], modelToTable = []\<rparr>
       \<in> (\<lambda>msg. Inl (SqlValidationError msg)) ` early_rejections"
proof -
  have k: "''kill'' \<in> set FORBIDDEN_KEYWORDS"
    by (simp add: FORBIDDEN_KEYWORDS_def)
  have l: "lower (normalize ''SELECT a FROM t WHERE KILL = 1'') = ''select a from t where kill = 1''"
    unfolding norm_keyword by (rule lower_keyword)
  have w: "test_word ''kill'' (lower (normalize ''SELECT a FROM t WHERE KILL = 1''))"
    unfolding l by (rule word_keyword)
  from k l w forbidden_keyword_rejected [OF k w] show ?thesis by blast
qed

text \<open>
  Claim C1, as stated, fails: a keyword that stands only in a comment is in the string
  as a whole word, and the query is accepted, because the comment is stripped first.
\<close>

theorem keyword_in_comment_accepted:
  "''drop'' \<in> set FORBIDDEN_KEYWORDS
   \<and> test_word ''drop'' ''SELECT a FROM t -- drop''
   \<and> validateSql ''SELECT a FROM t -- drop'' \<lparr>tables = [(''t'', {''a''})], modelToTable = []\<rparr>
       = Inr \<lparr>table = ''t'', referencedColumns = [''a'']\<rparr>"
  by (simp add: word_commented validateSql_def norm_commented lower_commented scan_commented
        star_commented from_commented cols_commented gate_eval FORBIDDEN_KEYWORDS_def)

lemma test_select_star_Nil: "\<not> test_select_star []"
  by (simp add: test_select_star_def select_star_at_def word_boundary_def is_word_opt_def)

text \<open>
  Claim C2. \<open>SELECT * FROM T\<close> is rejected with the message that asks for explicit
  columns, whatever the allowlist holds. In general a query whose normalized text matches
  \<open>select\<close>, whitespace, \<open>*\<close> (in any letter case) is never accepted: it is rejected by
  the wildcard gate or by one of the gates before it, and the allowlist plays no part.
\<close>

theorem wildcard_rejected:
  "validateSql ''SELECT * FROM T'' allowlist
     = Inl (SqlValidationError ''SELECT * is not allowed. Specify columns explicitly.'')
   \<and> (test_select_star (normalize sql) \<longrightarrow>
        validateSql sql allowlist \<in> (\<lambda>msg. Inl (SqlValidationError msg)) `
          insert ''SELECT * is not allowed. Specify columns explicitly.'' early_rejections)"
proof
  show "validateSql ''SELECT * FROM T'' allowlist
     = Inl (SqlValidationError ''SELECT * is not allowed. Specify columns explicitly.'')"
    by (simp add: validateSql_def norm_wildcard lower_wildcard scan_wildcard star_wildcard
          gate_eval)
next
  show "test_select_star (normalize sql) \<longrightarrow>
        validateSql sql allowlist \<in> (\<lambda>msg. Inl (SqlValidationError msg)) `
          insert ''SELECT * is not allowed. Specify columns explicitly.'' early_rejections"
  proof
    assume s: "test_select_star (normalize sql)"
    then have ne: "normalize sql \<noteq> []"
      using test_select_star_Nil by auto
    have f: "k \<in> set FORBIDDEN_KEYWORDS"
      if "containsForbidden (lower (normalize sql)) = Some k" for k
      using that unfolding containsForbidden_def by (auto simp: find_Some_iff)
    show "validateSql sql allowlist \<in> (\<lambda>msg. Inl (SqlValidationError msg)) `
          insert ''SELECT * is not allowed. Specify columns explicitly.'' early_rejections"
      using ne s f unfolding validateSql_def Let_def early_rejections_def truthy_def
      by (auto split: option.splits)
  qed
qed

lemma norm_spaced: "normalize ''select   *  from T'' = ''select * from T''"
  by (simp add: normalize_def trim_def char_eval)

lemma star_spaced: "test_select_star ''select * from T''"
  by (simp add: test_select_star_def select_star_at_def char_eval)

theorem wildcard_rejected_witness:
  "test_select_star (normalize ''select   *  from T'')
   \<and> validateSql ''select   *  from T'' \<lparr>tables = [(''T'', {''a''})], modelToTable = []\<rparr>
       \<in> (\<lambda>msg. Inl (SqlValidationError msg)) `
          insert ''SELECT * is not allowed. Specify columns explicitly.'' early_rejections"
proof -
  have s: "test_select_star (normalize ''select   *  from T'')"
    unfolding norm_spaced by (rule star_spaced)
  with wildcard_rejected [of "\<lparr>tables = [(''T'', {''a''})], modelToTable = []\<rparr>" "''select   *  from T''"]
  show ?thesis by blast
qed

section \<open>The table gate and the column gate\<close>

lemma find_SomeD: "find P xs = Some x \<Longrightarrow> x \<in> set xs \<and> P x"
  by (induction xs) (auto split: if_splits)

text \<open>
  Claim C4. If no table key of the allowlist, once its backticks and double quotes are
  removed, is \<open>unknown_table\<close>, then \<open>SELECT x FROM unknown_table\<close> is rejected with the
  message that the table is not allowlisted. The comparison ignores quoting on both
  sides: whenever a query is accepted, the table returned is a key of the allowlist that
  equals the identifier taken from the \<open>FROM\<close> clause after both are stripped of quotes.
\<close>

theorem table_gate:
  "((\<forall>k \<in> set (map fst (tables allowlist)). stripQuotesTable k \<noteq> ''unknown_table'') \<longrightarrow>
      validateSql ''SELECT x FROM unknown_table'' allowlist
        = Inl (SqlValidationError ''Table is not allowlisted: unknown_table''))
   \<and> (validateSql sql allowlist = Inr v \<longrightarrow>
        (\<exists>raw. extractFromTable (normalize sql) = Some raw
               \<and> table v \<in> set (map fst (tables allowlist))
               \<and> stripQuotesTable (table v) = stripQuotesTable raw))"
proof (intro conjI impI)
  assume a: "\<forall>k \<in> set (map fst (tables allowlist)). stripQuotesTable k \<noteq> ''unknown_table''"
  then have "find (\<lambda>t. stripQuotesTable t = ''unknown_table'') (map fst (tables allowlist)) = None"
    unfolding find_None_iff by blast
  then show "validateSql ''SELECT x FROM unknown_table'' allowlist
        = Inl (SqlValidationError ''Table is not allowlisted: unknown_table'')"
    by (simp add: validateSql_def norm_unknown lower_unknown scan_unknown star_unknown
          from_unknown gate_eval)
next
  assume "validateSql sql allowlist = Inr v"
  from validateSql_accepts [OF this] obtain raw where
    raw: "extractFromTable (normalize sql) = Some raw"
    and t: "find (\<lambda>t. stripQuotesTable t = stripQuotesTable raw) (map fst (tables allowlist))
              = Some (table v)"
    by blast
  from find_SomeD [OF t] have "table v \<in> set (map fst (tables allowlist))"
    and "stripQuotesTable (table v) = stripQuotesTable raw"
    by blast+
  with raw show "\<exists>raw. extractFromTable (normalize sql) = Some raw
               \<and> table v \<in> set (map fst (tables allowlist))
               \<and> stripQuotesTable (table v) = stripQuotesTable raw"
    by blast
qed

lemma accept_a_b_quoted_key:
  "validateSql ''SELECT a, b FROM T''
     \<lparr>tables = [([CHR 0x60, CHR ''T'', CHR 0x60], {''a'', ''b''})], modelToTable = []\<rparr>
   = Inr \<lparr>table = [CHR 0x60, CHR ''T'', CHR 0x60], referencedColumns = [''a'', ''b'']\<rparr>"
  by (simp add: validateSql_def norm_a_b lower_a_b scan_a_b star_a_b from_a_b cols_a_b gate_eval)

theorem table_gate_witness:
  "stripQuotesTable [CHR 0x60, CHR ''T'', CHR 0x60] \<noteq> ''unknown_table''
   \<and> validateSql ''SELECT x FROM unknown_table''
         \<lparr>tables = [([CHR 0x60, CHR ''T'', CHR 0x60], {''a'', ''b''})], modelToTable = []\<rparr>
       = Inl (SqlValidationError ''Table is not allowlisted: unknown_table'')
   \<and> validateSql ''SELECT a, b FROM T''
         \<lparr>tables = [([CHR 0x60, CHR ''T'', CHR 0x60], {''a'', ''b''})], modelToTable = []\<rparr>
       = Inr \<lparr>table = [CHR 0x60, CHR ''T'', CHR 0x60], referencedColumns = [''a'', ''b'']\<rparr>
   \<and> extractFromTable (normalize ''SELECT a, b FROM T'') = Some ''T''
   \<and> stripQuotesTable [CHR 0x60, CHR ''T'', CHR 0x60] = stripQuotesTable ''T''"
proof -
  let ?al = "\<lparr>tables = [([CHR 0x60, CHR ''T'', CHR 0x60], {''a'', ''b''})], modelToTable = []\<rparr>"
  let ?v = "\<lparr>table = [CHR 0x60, CHR ''T'', CHR 0x60], referencedColumns = [''a'', ''b'']\<rparr>"
  have h: "\<forall>k \<in> set (map fst (tables ?al)). stripQuotesTable k \<noteq> ''unknown_table''"
    by (simp add: stripQuotesTable_def)
  have e: "extractFromTable (normalize ''SELECT a, b FROM T'') = Some ''T''"
    unfolding norm_a_b by (rule from_a_b)
  from table_gate [of ?al "''SELECT a, b FROM T''" ?v] h accept_a_b_quoted_key e
  show ?thesis by (simp add: stripQuotesTable_def)
qed

lemma reject_a_c:
  "validateSql ''SELECT a, c FROM T'' \<lparr>tables = [(''T'', {''a'', ''b''})], modelToTable = m\<rparr>
     = Inl (SqlValidationError ''Column is not allowlisted: c'')"
  by (simp add: validateSql_def norm_a_c lower_a_c scan_a_c star_a_c from_a_c cols_a_c gate_eval)

lemma accept_a_b:
  "validateSql ''SELECT a, b FROM T'' \<lparr>tables = [(''T'', {''a'', ''b''})], modelToTable = m\<rparr>
     = Inr \<lparr>table = ''T'', referencedColumns = [''a'', ''b'']\<rparr>"
  by (simp add: validateSql_def norm_a_b lower_a_b scan_a_b star_a_b from_a_b cols_a_b gate_eval)

text \<open>
  Claim C5. Against the allowlist that maps table \<open>T\<close> to the columns \<open>a\<close> and \<open>b\<close>, the
  query \<open>SELECT a, c FROM T\<close> is rejected with the message that names column \<open>c\<close>, and
  \<open>SELECT a, b FROM T\<close> is accepted with table \<open>T\<close> and the referenced columns \<open>a\<close>, \<open>b\<close>.
\<close>

theorem column_gate:
  "validateSql ''SELECT a, c FROM T'' \<lparr>tables = [(''T'', {''a'', ''b''})], modelToTable = m\<rparr>
     = Inl (SqlValidationError ''Column is not allowlisted: c'')
   \<and> validateSql ''SELECT a, b FROM T'' \<lparr>tables = [(''T'', {''a'', ''b''})], modelToTable = m\<rparr>
     = Inr \<lparr>table = ''T'', referencedColumns = [''a'', ''b'']\<rparr>"
  using reject_a_c accept_a_b by simp

theorem column_gate_witness:
  "validateSql ''SELECT a, c FROM T''
     \<lparr>tables = [(''T'', {''a'', ''b''})], modelToTable = [(''m'', ''T'')]\<rparr>
     = Inl (SqlValidationError ''Column is not allowlisted: c'')
   \<and> table (projr (validateSql ''SELECT a, b FROM T''
        \<lparr>tables = [(''T'', {''a'', ''b''})], modelToTable = [(''m'', ''T'')]\<rparr>)) = ''T''
   \<and> {''a'', ''b''} \<subseteq> set (referencedColumns (projr (validateSql ''SELECT a, b FROM T''
        \<lparr>tables = [(''T'', {''a'', ''b''})], modelToTable = [(''m'', ''T'')]\<rparr>)))"
  using column_gate [of "[(''m'', ''T'')]"] by simp

lemma accept_t_a:
  "validateSql ''SELECT t, a FROM t'' \<lparr>tables = [(''t'', {''a''})], modelToTable = m\<rparr>
     = Inr \<lparr>table = ''t'', referencedColumns = [''a'']\<rparr>"
  by (simp add: validateSql_def norm_t_a lower_t_a scan_t_a star_t_a from_t_a cols_t_a gate_eval)

text \<open>
  Claim C10. A token one of whose dotted segments, lower-cased, is a segment of the
  identifier of the \<open>FROM\<close> clause (quotes removed, lower-cased) is dropped by the column
  extraction. So for every allowlist and every accepted query the columns returned are
  those of \<open>findReferencedColumns\<close>, the only names checked against the allowlist, and
  none of them is, up to letter case, a segment of the table identifier. Validation can
  succeed on a query that selects such a name although it is not an allowlisted column:
  \<open>SELECT t, a FROM t\<close> is accepted against the allowlist that gives table \<open>t\<close> the single
  column \<open>a\<close>.
\<close>

theorem table_names_skipped:
  "((\<exists>part \<in> set (split_on (CHR ''.'') (toLowerCase tok)). part \<in> set (fromParts_of fromTable))
      \<longrightarrow> column_of_token fromTable tok = None)
   \<and> (validateSql sql allowlist = Inr v \<longrightarrow>
        (\<exists>raw. extractFromTable (normalize sql) = Some raw
               \<and> referencedColumns v = findReferencedColumns (normalize sql) raw
               \<and> (\<forall>c \<in> set (referencedColumns v). toLowerCase c \<notin> set (fromParts_of raw))))
   \<and> validateSql ''SELECT t, a FROM t'' \<lparr>tables = [(''t'', {''a''})], modelToTable = m\<rparr>
       = Inr \<lparr>table = ''t'', referencedColumns = [''a'']\<rparr>"
proof (intro conjI impI)
  assume "\<exists>part \<in> set (split_on (CHR ''.'') (toLowerCase tok)). part \<in> set (fromParts_of fromTable)"
  then show "column_of_token fromTable tok = None"
    by (rule column_of_token_skips)
next
  assume "validateSql sql allowlist = Inr v"
  from validateSql_accepts [OF this] obtain raw where
    raw: "extractFromTable (normalize sql) = Some raw"
    and r: "referencedColumns v = findReferencedColumns (normalize sql) raw"
    by blast
  have "\<forall>c \<in> set (referencedColumns v). toLowerCase c \<notin> set (fromParts_of raw)"
    unfolding r using findReferencedColumns_not_table by blast
  with raw r show "\<exists>raw. extractFromTable (normalize sql) = Some raw
               \<and> referencedColumns v = findReferencedColumns (normalize sql) raw
               \<and> (\<forall>c \<in> set (referencedColumns v). toLowerCase c \<notin> set (fromParts_of raw))"
    by blast
next
  show "validateSql ''SELECT t, a FROM t'' \<lparr>tables = [(''t'', {''a''})], modelToTable = m\<rparr>
       = Inr \<lparr>table = ''t'', referencedColumns = [''a'']\<rparr>"
    by (rule accept_t_a)
qed

lemma parts_t: "fromParts_of ''t'' = [''t'']"
  by (simp add: column_eval char_eval)

lemma token_t: "split_on (CHR ''.'') (toLowerCase ''t'') = [''t'']"
  by (simp add: toLowerCase_def char_eval)

theorem table_names_skipped_witness:
  "''t'' \<in> set (split_on (CHR ''.'') (toLowerCase ''t''))
   \<and> ''t'' \<in> set (fromParts_of ''t'')
   \<and> column_of_token ''t'' ''t'' = None
   \<and> validateSql ''SELECT t, a FROM t'' \<lparr>tables = [(''t'', {''a''})], modelToTable = []\<rparr>
       = Inr \<lparr>table = ''t'', referencedColumns = [''a'']\<rparr>
   \<and> extractFromTable (normalize ''SELECT t, a FROM t'') = Some ''t''
   \<and> ''t'' \<notin> {''a''}
   \<and> ''t'' \<notin> set (referencedColumns \<lparr>table = ''t'', referencedColumns = [''a'']\<rparr>)"
proof -
  let ?al = "\<lparr>tables = [(''t'', {''a''})], modelToTable = []\<rparr>"
  let ?v = "\<lparr>table = ''t'', referencedColumns = [''a'']\<rparr>"
  have p: "\<exists>part \<in> set (split_on (CHR ''.'') (toLowerCase ''t'')). part \<in> set (fromParts_of ''t'')"
    unfolding parts_t token_t by simp
  have e: "extractFromTable (normalize ''SELECT t, a FROM t'') = Some ''t''"
    unfolding norm_t_a by (rule from_t_a)
  from table_names_skipped [of "''t''" "''t''" "''SELECT t, a FROM t''" ?al ?v "[]"] p e
  show ?thesis by (simp add: parts_t token_t)
qed

section \<open>The allowlist builder\<close>

lemma map_of_Map_set: "map_of (Map_set k v ps) = (map_of ps)(k \<mapsto> v)"
  by (induction ps) auto

lemma keys_Map_set: "fst ` set (Map_set k v ps) = insert k (fst ` set ps)"
  by (induction ps) auto

lemma distinct_Map_set: "distinct (map fst ps) \<Longrightarrow> distinct (map fst (Map_set k v ps))"
  by (induction ps) (auto simp: keys_Map_set)

lemma tables_step:
  "tables (buildAllowlist_step al m)
     = Map_set (table_identity m) (set (Object_keys (columns m))) (tables al)"
  by (simp add: buildAllowlist_step_def Let_def)

lemma tables_foldl_lookup:
  assumes "m \<in> set ms"
  shows "map_of (tables (foldl buildAllowlist_step al ms)) (table_identity m)
           = Some (set (Object_keys (columns
               (last (filter (\<lambda>m'. table_identity m' = table_identity m) ms)))))"
  using assms
proof (induction ms rule: rev_induct)
  case Nil
  then show ?case by simp
next
  case (snoc x xs)
  show ?case
  proof (cases "table_identity x = table_identity m")
    case True
    then show ?thesis by (simp add: tables_step map_of_Map_set)
  next
    case False
    with snoc.prems have "m \<in> set xs" by auto
    with snoc.IH False show ?thesis by (simp add: tables_step map_of_Map_set)
  qed
qed

lemma tables_foldl_keys:
  "fst ` set (tables (foldl buildAllowlist_step al ms))
     = fst ` set (tables al) \<union> table_identity ` set ms"
  by (induction ms rule: rev_induct) (auto simp: tables_step keys_Map_set)

lemma tables_foldl_distinct:
  "distinct (map fst (tables al)) \<Longrightarrow> distinct (map fst (tables (foldl buildAllowlist_step al ms)))"
  by (induction ms rule: rev_induct) (auto simp: tables_step distinct_Map_set)

lemma buildAllowlist_step_lists:
  "buildAllowlist_step al (m\<lparr>dimensions := ds, metrics := es\<rparr>) = buildAllowlist_step al m"
  by (simp add: buildAllowlist_step_def table_identity_def)

lemma buildAllowlist_foldl_lists:
  "foldl buildAllowlist_step al (map (\<lambda>m. m\<lparr>dimensions := ds m, metrics := es m\<rparr>) ms)
     = foldl buildAllowlist_step al ms"
  by (induction ms arbitrary: al) (simp_all add: buildAllowlist_step_lists)

text \<open>
  Claim C7. \<open>buildAllowlist\<close> is a function of the catalog alone. For every model of the
  catalog its table identity is a key of \<open>tables\<close>, and the value stored there is the set
  of keys of \<open>columns\<close> of the last model of the catalog with that identity: the model's own
  keys unless a later model resolves to the same identity, which then wins. The keys of
  \<open>tables\<close> are exactly the identities of the models, each once. Changing \<open>dimensions\<close> and
  \<open>metrics\<close> changes nothing. The identity is \<open>relation_name\<close> (trimmed) when that is not
  blank, else \<open>schema\<close> and \<open>name\<close> in backticks joined by a dot when \<open>schema\<close> is not empty,
  else \<open>name\<close> in backticks.
\<close>

theorem allowlist_complete:
  "(\<forall>m \<in> set (models catalog).
      map_of (tables (buildAllowlist catalog)) (table_identity m)
        = Some (set (Object_keys (columns
            (last (filter (\<lambda>m'. table_identity m' = table_identity m) (models catalog)))))))
   \<and> fst ` set (tables (buildAllowlist catalog)) = table_identity ` set (models catalog)
   \<and> distinct (map fst (tables (buildAllowlist catalog)))
   \<and> buildAllowlist (catalog\<lparr>models := map (\<lambda>m. m\<lparr>dimensions := ds m, metrics := es m\<rparr>)
                                          (models catalog)\<rparr>)
       = buildAllowlist catalog
   \<and> (relation_name m = Some r \<and> trim r \<noteq> [] \<longrightarrow> table_identity m = trim r)
   \<and> ((relation_name m = None \<or> trim (the (relation_name m)) = []) \<and> schema m = Some s \<and> s \<noteq> []
        \<longrightarrow> table_identity m = backtick s @ ''.'' @ backtick (name m))
   \<and> ((relation_name m = None \<or> trim (the (relation_name m)) = [])
        \<and> (schema m = None \<or> schema m = Some [])
        \<longrightarrow> table_identity m = backtick (name m))"
proof (intro conjI ballI impI)
  fix x assume "x \<in> set (models catalog)"
  then show "map_of (tables (buildAllowlist catalog)) (table_identity x)
        = Some (set (Object_keys (columns
            (last (filter (\<lambda>m'. table_identity m' = table_identity x) (models catalog))))))"
    unfolding buildAllowlist_def by (rule tables_foldl_lookup)
next
  show "fst ` set (tables (buildAllowlist catalog)) = table_identity ` set (models catalog)"
    unfolding buildAllowlist_def by (simp add: tables_foldl_keys)
next
  show "distinct (map fst (tables (buildAllowlist catalog)))"
    unfolding buildAllowlist_def by (rule tables_foldl_distinct) simp
next
  show "buildAllowlist (catalog\<lparr>models := map (\<lambda>m. m\<lparr>dimensions := ds m, metrics := es m\<rparr>)
                                          (models catalog)\<rparr>)
       = buildAllowlist catalog"
    unfolding buildAllowlist_def by (simp add: buildAllowlist_foldl_lists)
next
  assume "relation_name m = Some r \<and> trim r \<noteq> []"
  moreover from this have "r \<noteq> []" by (auto simp: trim_def)
  ultimately show "table_identity m = trim r"
    by (simp add: table_identity_def truthy_def)
next
  assume "(relation_name m = None \<or> trim (the (relation_name m)) = []) \<and> schema m = Some s \<and> s \<noteq> []"
  then show "table_identity m = backtick s @ ''.'' @ backtick (name m)"
    by (auto simp: table_identity_def truthy_def)
next
  assume "(relation_name m = None \<or> trim (the (relation_name m)) = [])
        \<and> (schema m = None \<or> schema m = Some [])"
  then show "table_identity m = backtick (name m)"
    by (auto simp: table_identity_def truthy_def)
qed

lemma identity_ltv_model: "table_identity ltv_model = backtick ''db'' @ ''.'' @ backtick ''ltv_weekly''"
  by (simp add: table_identity_def truthy_def trim_def model_eval char_eval)

lemma identity_users_model: "table_identity users_model = backtick ''users''"
  by (simp add: table_identity_def truthy_def trim_def model_eval char_eval)

lemma identity_costs_model: "table_identity costs_model = backtick ''db'' @ ''.'' @ backtick ''costs''"
  by (simp add: table_identity_def truthy_def trim_def model_eval char_eval)

lemma identity_ltv_copy: "table_identity ltv_copy = backtick ''db'' @ ''.'' @ backtick ''ltv_weekly''"
  by (simp add: table_identity_def truthy_def trim_def model_eval char_eval)

lemmas identity_eval = identity_ltv_model identity_users_model identity_costs_model
  identity_ltv_copy

theorem allowlist_complete_witness:
  "ltv_model \<in> set (models example_catalog)
   \<and> costs_model \<in> set (models example_catalog)
   \<and> last (filter (\<lambda>m'. table_identity m' = table_identity ltv_model) (models example_catalog))
       = ltv_copy
   \<and> map_of (tables (buildAllowlist example_catalog)) (table_identity ltv_model)
       = Some {''week'', ''revenue''}
   \<and> map_of (tables (buildAllowlist example_catalog)) (table_identity costs_model)
       = Some {''week'', ''revenue''}
   \<and> relation_name ltv_copy
       = Some ('' '' @ backtick ''db'' @ ''.'' @ backtick ''ltv_weekly'' @ '' '')
   \<and> table_identity ltv_copy = backtick ''db'' @ ''.'' @ backtick ''ltv_weekly''
   \<and> relation_name costs_model = None \<and> schema costs_model = Some ''db''
   \<and> table_identity costs_model = backtick ''db'' @ ''.'' @ backtick ''costs''
   \<and> relation_name users_model = None \<and> schema users_model = None
   \<and> table_identity users_model = backtick ''users''"
proof -
  have in1: "ltv_model \<in> set (models example_catalog)"
    and in2: "costs_model \<in> set (models example_catalog)"
    by (simp_all add: example_catalog_def)
  have l1: "last (filter (\<lambda>m'. table_identity m' = table_identity ltv_model)
                    (models example_catalog)) = ltv_copy"
    by (simp add: example_catalog_def identity_eval backtick_def)
  have l2: "last (filter (\<lambda>m'. table_identity m' = table_identity costs_model)
                    (models example_catalog)) = costs_model"
    by (simp add: example_catalog_def identity_eval backtick_def)
  note t = allowlist_complete [of example_catalog "\<lambda>m. None" "\<lambda>m. None"]
  from t [of ltv_copy "'' '' @ backtick ''db'' @ ''.'' @ backtick ''ltv_weekly'' @ '' ''" "''db''"]
  have a: "\<forall>m \<in> set (models example_catalog).
      map_of (tables (buildAllowlist example_catalog)) (table_identity m)
        = Some (set (Object_keys (columns
            (last (filter (\<lambda>m'. table_identity m' = table_identity m) (models example_catalog))))))"
    by blast
  from a in1 have "map_of (tables (buildAllowlist example_catalog)) (table_identity ltv_model)
        = Some (set (Object_keys (columns
            (last (filter (\<lambda>m'. table_identity m' = table_identity ltv_model)
                     (models example_catalog))))))"
    by blast
  then have v1: "map_of (tables (buildAllowlist example_catalog)) (table_identity ltv_model)
       = Some {''week'', ''revenue''}"
    by (simp add: l1) (simp add: ltv_copy_def Object_keys_def)
  from a in2 have "map_of (tables (buildAllowlist example_catalog)) (table_identity costs_model)
        = Some (set (Object_keys (columns
            (last (filter (\<lambda>m'. table_identity m' = table_identity costs_model)
                     (models example_catalog))))))"
    by blast
  then have v2: "map_of (tables (buildAllowlist example_catalog)) (table_identity costs_model)
       = Some {''week'', ''revenue''}"
    by (simp add: l2) (simp add: costs_model_def Object_keys_def)
  show ?thesis
    using in1 in2 l1 v1 v2 identity_eval
    by (simp add: ltv_copy_def costs_model_def users_model_def)
qed

section \<open>The ranking of the search\<close>

lemma score_hit_Some:
  "score_hit m q = Some r \<longleftrightarrow>
     0 < fst (calculateRelevanceScore m q)
     \<and> r = \<lparr>model = m, relevanceScore = fst (calculateRelevanceScore m q),
             matchedFields = snd (calculateRelevanceScore m q)\<rparr>"
  by (auto simp: score_hit_def Let_def)

lemma score_hit_None: "score_hit m q = None \<longleftrightarrow> \<not> 0 < fst (calculateRelevanceScore m q)"
  by (simp add: score_hit_def Let_def)

lemma hits_models:
  "map model (List.map_filter (\<lambda>m. score_hit m q) ms)
     = filter (\<lambda>m. 0 < fst (calculateRelevanceScore m q)) ms"
  by (induction ms) (auto simp: score_hit_def Let_def)

lemma hits_models_of_score:
  "map model (filter (\<lambda>r. relevanceScore r = k) (List.map_filter (\<lambda>m. score_hit m q) ms))
     = filter (\<lambda>m. fst (calculateRelevanceScore m q) = k \<and> 0 < k) ms"
  by (induction ms) (auto simp: score_hit_def Let_def)

lemma hits_sources:
  "r \<in> set (List.map_filter (\<lambda>m. score_hit m q) ms)
     \<Longrightarrow> \<exists>m \<in> set ms. score_hit m q = Some r"
  by (induction ms) (auto split: option.splits)

lemma hits_faithful:
  assumes "r \<in> set (List.map_filter (\<lambda>m. score_hit m q) ms)"
  shows "model r \<in> set ms \<and> 0 < relevanceScore r
         \<and> relevanceScore r = fst (calculateRelevanceScore (model r) q)
         \<and> matchedFields r = snd (calculateRelevanceScore (model r) q)"
proof -
  from hits_sources [OF assms] obtain m where "m \<in> set ms" and "score_hit m q = Some r"
    by blast
  then show ?thesis by (auto simp: score_hit_Some)
qed

lemma sort_by_score_desc_stable:
  "filter (\<lambda>r. relevanceScore r = k) (sort_by_score_desc rs)
     = filter (\<lambda>r. relevanceScore r = k) rs"
proof -
  have "filter (\<lambda>r. - relevanceScore r = - k) (sort_key (\<lambda>r. - relevanceScore r) rs)
          = filter (\<lambda>r. - relevanceScore r = - k) rs"
    by (rule sort_key_stable)
  then show ?thesis by (simp add: sort_by_score_desc_def)
qed

lemma sort_by_score_desc_sorted:
  "sorted_wrt (\<lambda>a b. relevanceScore b \<le> relevanceScore a) (sort_by_score_desc rs)"
proof -
  have "sorted (map (\<lambda>r. - relevanceScore r) (sort_key (\<lambda>r. - relevanceScore r) rs))"
    by (rule sorted_sort_key)
  then show ?thesis by (simp add: sort_by_score_desc_def sorted_map)
qed

text \<open>
  Claim C8. The models returned by the search are, counted with multiplicity, the models
  of the catalog whose relevance score is strictly positive; the results are in
  descending order of score; for every score the results with that score are in the
  order of the catalog; and every result carries the score and the matched fields
  computed for its model. \<open>searchCatalog\<close> returns this ranking whenever the catalog loads.
\<close>

theorem search_ranking:
  "mset (map model (rank_models ms q))
     = mset (filter (\<lambda>m. 0 < fst (calculateRelevanceScore m q)) ms)
   \<and> sorted_wrt (\<lambda>a b. relevanceScore b \<le> relevanceScore a) (rank_models ms q)
   \<and> (\<forall>k. map model (filter (\<lambda>r. relevanceScore r = k) (rank_models ms q))
            = filter (\<lambda>m. fst (calculateRelevanceScore m q) = k \<and> 0 < k) ms)
   \<and> (\<forall>r \<in> set (rank_models ms q).
         relevanceScore r = fst (calculateRelevanceScore (model r) q)
         \<and> matchedFields r = snd (calculateRelevanceScore (model r) q))
   \<and> (loadAiCatalog p parsed = Inr catalog \<longrightarrow>
        searchCatalog p parsed q = Inr (rank_models (models catalog) q))"
proof (intro conjI allI ballI impI)
  have "mset (map model (rank_models ms q))
          = mset (map model (List.map_filter (\<lambda>m. score_hit m q) ms))"
    unfolding rank_models_def sort_by_score_desc_def by simp
  then show "mset (map model (rank_models ms q))
     = mset (filter (\<lambda>m. 0 < fst (calculateRelevanceScore m q)) ms)"
    by (simp only: hits_models)
next
  show "sorted_wrt (\<lambda>a b. relevanceScore b \<le> relevanceScore a) (rank_models ms q)"
    unfolding rank_models_def by (rule sort_by_score_desc_sorted)
next
  fix k
  show "map model (filter (\<lambda>r. relevanceScore r = k) (rank_models ms q))
            = filter (\<lambda>m. fst (calculateRelevanceScore m q) = k \<and> 0 < k) ms"
    unfolding rank_models_def sort_by_score_desc_stable by (rule hits_models_of_score)
next
  fix r assume "r \<in> set (rank_models ms q)"
  then have "r \<in> set (List.map_filter (\<lambda>m. score_hit m q) ms)"
    by (simp add: rank_models_def sort_by_score_desc_def)
  from hits_faithful [OF this]
  show "relevanceScore r = fst (calculateRelevanceScore (model r) q)"
    and "matchedFields r = snd (calculateRelevanceScore (model r) q)"
    by simp_all
next
  assume "loadAiCatalog p parsed = Inr catalog"
  then show "searchCatalog p parsed q = Inr (rank_models (models catalog) q)"
    by (simp add: searchCatalog_def)
qed

lemma score_ltv_model: "calculateRelevanceScore ltv_model ''week'' = (3, [''dimensions''])"
  by (simp add: score_eval ltv_model_def plain_column_def char_eval)

lemma score_users_model: "calculateRelevanceScore users_model ''week'' = (0, [])"
  by (simp add: score_eval users_model_def plain_column_def char_eval)

lemma score_costs_model:
  "calculateRelevanceScore costs_model ''week'' = (13, [''description'', ''dimensions''])"
  by (simp add: score_eval costs_model_def plain_column_def char_eval)

lemma score_ltv_copy: "calculateRelevanceScore ltv_copy ''week'' = (3, [''dimensions''])"
  by (simp add: score_eval ltv_copy_def plain_column_def char_eval)

lemmas week_scores = score_ltv_model score_users_model score_costs_model score_ltv_copy

lemma rank_week:
  "rank_models (models example_catalog) ''week''
     = [\<lparr>model = costs_model, relevanceScore = 13,
          matchedFields = [''description'', ''dimensions'']\<rparr>,
        \<lparr>model = ltv_model, relevanceScore = 3, matchedFields = [''dimensions'']\<rparr>,
        \<lparr>model = ltv_copy, relevanceScore = 3, matchedFields = [''dimensions'']\<rparr>]"
  by (simp add: rank_models_def sort_by_score_desc_def score_hit_def example_catalog_def
        week_scores)

theorem search_ranking_witness:
  "map (\<lambda>r. (name (model r), relevanceScore r)) (rank_models (models example_catalog) ''week'')
     = [(''costs'', 13), (''ltv_weekly'', 3), (''ltv_copy'', 3)]
   \<and> models example_catalog = [ltv_model, users_model, costs_model, ltv_copy]
   \<and> fst (calculateRelevanceScore users_model ''week'') = 0
   \<and> map model (filter (\<lambda>r. relevanceScore r = 3) (rank_models (models example_catalog) ''week''))
       = [ltv_model, ltv_copy]
   \<and> sorted_wrt (\<lambda>a b. relevanceScore b \<le> relevanceScore a)
        (rank_models (models example_catalog) ''week'')
   \<and> loadAiCatalog ''p'' (Inr example_catalog) = Inr example_catalog
   \<and> searchCatalog ''p'' (Inr example_catalog) ''week''
       = Inr (rank_models (models example_catalog) ''week'')"
proof -
  have l: "loadAiCatalog ''p'' (Inr example_catalog) = Inr example_catalog"
    by (simp add: loadAiCatalog_def example_catalog_def)
  note t = search_ranking [of "models example_catalog" "''week''" "''p''" "Inr example_catalog"
      example_catalog]
  from t have s: "sorted_wrt (\<lambda>a b. relevanceScore b \<le> relevanceScore a)
        (rank_models (models example_catalog) ''week'')"
    by blast
  from t have "map model (filter (\<lambda>r. relevanceScore r = 3)
                  (rank_models (models example_catalog) ''week''))
       = filter (\<lambda>m. fst (calculateRelevanceScore m ''week'') = 3 \<and> (0::int) < 3)
           (models example_catalog)"
    by blast
  then have k: "map model (filter (\<lambda>r. relevanceScore r = 3)
                  (rank_models (models example_catalog) ''week'')) = [ltv_model, ltv_copy]"
    by (simp add: example_catalog_def week_scores)
  from t l have c: "searchCatalog ''p'' (Inr example_catalog) ''week''
       = Inr (rank_models (models example_catalog) ''week'')"
    by blast
  have n: "map (\<lambda>r. (name (model r), relevanceScore r))
             (rank_models (models example_catalog) ''week'')
     = [(''costs'', 13), (''ltv_weekly'', 3), (''ltv_copy'', 3)]"
    unfolding rank_week by (simp add: model_eval)
  show ?thesis
    using n k s l c by (simp add: example_catalog_def week_scores)
qed

section \<open>Runs of the orchestrator\<close>

lemma validateSql_throws:
  assumes "validateSql sql allowlist = Inl e"
  shows "e = SqlValidationError (message e)"
proof (cases "\<exists>t. find (\<lambda>t. stripQuotesTable t = stripQuotesTable (the (extractFromTable (normalize sql))))
                  (map fst (tables allowlist)) = Some t")
  case True
  then obtain t where t: "find (\<lambda>t. stripQuotesTable t = stripQuotesTable (the (extractFromTable (normalize sql))))
                  (map fst (tables allowlist)) = Some t"
    by blast
  from find_SomeD [OF t] have "t \<in> fst ` set (tables allowlist)" by simp
  then have "map_of (tables allowlist) t \<noteq> None"
    by (simp add: map_of_eq_None_iff)
  then obtain cols where "map_of (tables allowlist) t = Some cols" by blast
  with assms t show ?thesis
    unfolding validateSql_def Let_def
    by (auto split: if_splits option.splits)
next
  case False
  then have "find (\<lambda>t. stripQuotesTable t = stripQuotesTable (the (extractFromTable (normalize sql))))
                  (map fst (tables allowlist)) = None"
    by (cases "find (\<lambda>t. stripQuotesTable t = stripQuotesTable (the (extractFromTable (normalize sql))))
                  (map fst (tables allowlist))") auto
  with assms show ?thesis
    unfolding validateSql_def Let_def truthy_def
    by (auto split: if_splits option.splits)
qed

lemma on_error_validation:
  "validateSql sql allowlist = Inl e \<Longrightarrow> on_error e = Failure ''SQL_VALIDATION_ERROR'' (message e)"
  by (drule validateSql_throws) (cases e, simp_all add: on_error_def)

lemma sqlExecutor_calls:
  assumes "ev \<in> set (snd (sqlExecutor_execute p parsed runSelect sql))"
  shows "\<exists>catalog v. ev = RunSelect sql run_options \<and> loadAiCatalog p parsed = Inr catalog
           \<and> validateSql sql (buildAllowlist catalog) = Inr v"
  using assms unfolding sqlExecutor_execute_def sqlExecutor_try_def Let_def
  by (auto split: sum.splits prod.splits)

lemma queryExecutor_calls:
  assumes "ev \<in> set (snd (queryExecutor_execute p parsed1 parsed2 runSelect query))"
  shows "\<exists>sql catalog v. ev = RunSelect sql run_options \<and> loadAiCatalog p parsed2 = Inr catalog
           \<and> validateSql sql (buildAllowlist catalog) = Inr v"
  using assms unfolding queryExecutor_execute_def queryExecutor_try_def Let_def
  by (auto split: sum.splits prod.splits list.splits if_splits)

lemma sqlExecutor_rejected:
  assumes "loadAiCatalog p parsed = Inr catalog"
    and "validateSql sql (buildAllowlist catalog) = Inl e"
  shows "sqlExecutor_execute p parsed runSelect sql
           = (Failure ''SQL_VALIDATION_ERROR'' (message e), [])"
  using assms on_error_validation [OF assms(2)]
  unfolding sqlExecutor_execute_def sqlExecutor_try_def Let_def by simp

lemma queryExecutor_rejected:
  assumes "searchCatalog p parsed1 query = Inr (first # others)"
    and "truthy (relation_name (model first))"
    and "selectParts_of (model first) \<noteq> []"
    and "loadAiCatalog p parsed2 = Inr catalog"
    and "validateSql (build_sql (model first) (selectParts_of (model first)))
           (buildAllowlist catalog) = Inl e"
  shows "queryExecutor_execute p parsed1 parsed2 runSelect query
           = (Failure ''SQL_VALIDATION_ERROR'' (message e), [])"
  using assms on_error_validation [OF assms(5)]
  unfolding queryExecutor_execute_def queryExecutor_try_def Let_def by simp

lemma queryExecutor_no_model:
  assumes "searchCatalog p parsed1 query = Inr []"
  shows "queryExecutor_execute p parsed1 parsed2 runSelect query
           = (Failure ''NO_MODEL_FOUND''
                (''No matching models found for query: '' @ [CHR 0x22] @ query @ [CHR 0x22]), [])"
  using assms unfolding queryExecutor_execute_def queryExecutor_try_def by simp

text \<open>
  Claim C6. In a run of either tool every call of the execution client is for a query
  that \<open>validateSql\<close> accepted against the allowlist of the catalog loaded in that run,
  and the call is made with that very text. When the search finds no model the run
  answers \<open>NO_MODEL_FOUND\<close> and makes no call; when validation throws, the run answers
  \<open>SQL_VALIDATION_ERROR\<close> with the message of the validator and makes no call.
\<close>

theorem validation_gate:
  "(\<forall>ev \<in> set (snd (queryExecutor_execute p parsed1 parsed2 runSelect query)).
      \<exists>sql catalog v. ev = RunSelect sql run_options \<and> loadAiCatalog p parsed2 = Inr catalog
         \<and> validateSql sql (buildAllowlist catalog) = Inr v)
   \<and> (\<forall>ev \<in> set (snd (sqlExecutor_execute p parsed runSelect sql)).
      \<exists>catalog v. ev = RunSelect sql run_options \<and> loadAiCatalog p parsed = Inr catalog
         \<and> validateSql sql (buildAllowlist catalog) = Inr v)
   \<and> (searchCatalog p parsed1 query = Inr [] \<longrightarrow>
        queryExecutor_execute p parsed1 parsed2 runSelect query
          = (Failure ''NO_MODEL_FOUND''
               (''No matching models found for query: '' @ [CHR 0x22] @ query @ [CHR 0x22]), []))
   \<and> (searchCatalog p parsed1 query = Inr (first # others)
        \<and> truthy (relation_name (model first))
        \<and> selectParts_of (model first) \<noteq> []
        \<and> loadAiCatalog p parsed2 = Inr catalog
        \<and> validateSql (build_sql (model first) (selectParts_of (model first)))
             (buildAllowlist catalog) = Inl e
        \<longrightarrow> queryExecutor_execute p parsed1 parsed2 runSelect query
              = (Failure ''SQL_VALIDATION_ERROR'' (message e), []))
   \<and> (loadAiCatalog p parsed = Inr catalog' \<and> validateSql sql (buildAllowlist catalog') = Inl e'
        \<longrightarrow> sqlExecutor_execute p parsed runSelect sql
              = (Failure ''SQL_VALIDATION_ERROR'' (message e'), []))"
proof (intro conjI ballI impI)
  fix ev assume "ev \<in> set (snd (queryExecutor_execute p parsed1 parsed2 runSelect query))"
  then show "\<exists>sql catalog v. ev = RunSelect sql run_options \<and> loadAiCatalog p parsed2 = Inr catalog
         \<and> validateSql sql (buildAllowlist catalog) = Inr v"
    by (rule queryExecutor_calls)
next
  fix ev assume "ev \<in> set (snd (sqlExecutor_execute p parsed runSelect sql))"
  then show "\<exists>catalog v. ev = RunSelect sql run_options \<and> loadAiCatalog p parsed = Inr catalog
         \<and> validateSql sql (buildAllowlist catalog) = Inr v"
    by (rule sqlExecutor_calls)
next
  assume "searchCatalog p parsed1 query = Inr []"
  then show "queryExecutor_execute p parsed1 parsed2 runSelect query
          = (Failure ''NO_MODEL_FOUND''
               (''No matching models found for query: '' @ [CHR 0x22] @ query @ [CHR 0x22]), [])"
    by (rule queryExecutor_no_model)
next
  assume "searchCatalog p parsed1 query = Inr (first # others)
        \<and> truthy (relation_name (model first))
        \<and> selectParts_of (model first) \<noteq> []
        \<and> loadAiCatalog p parsed2 = Inr catalog
        \<and> validateSql (build_sql (model first) (selectParts_of (model first)))
             (buildAllowlist catalog) = Inl e"
  then show "queryExecutor_execute p parsed1 parsed2 runSelect query
              = (Failure ''SQL_VALIDATION_ERROR'' (message e), [])"
    by (intro queryExecutor_rejected) blast+
next
  assume "loadAiCatalog p parsed = Inr catalog' \<and> validateSql sql (buildAllowlist catalog') = Inl e'"
  then show "sqlExecutor_execute p parsed runSelect sql
              = (Failure ''SQL_VALIDATION_ERROR'' (message e'), [])"
    by (intro sqlExecutor_rejected) blast+
qed

text \<open>Runs of both tools on small catalogs, stage by stage.\<close>

lemma score_sales: "calculateRelevanceScore sales_model ''sales'' = (13, [''description'', ''dimensions''])"
  by (simp add: score_eval sales_model_def plain_column_def char_eval)

lemma score_sales_miss: "calculateRelevanceScore sales_model ''zzz'' = (0, [])"
  by (simp add: score_eval sales_model_def plain_column_def char_eval)

lemma score_updates: "calculateRelevanceScore updates_model ''sales'' = (10, [''description''])"
  by (simp add: score_eval updates_model_def plain_column_def char_eval)

lemma load_one: "loadAiCatalog p (Inr (catalog_of m)) = Inr (catalog_of m)"
  by (simp add: loadAiCatalog_def catalog_of_def)

lemma models_one: "models (catalog_of m) = [m]"
  by (simp add: catalog_of_def)

lemma search_sales:
  "searchCatalog ''p'' (Inr (catalog_of sales_model)) ''sales''
     = Inr [\<lparr>model = sales_model, relevanceScore = 13,
              matchedFields = [''description'', ''dimensions'']\<rparr>]"
  by (simp add: searchCatalog_def load_one rank_models_def sort_by_score_desc_def score_hit_def
        score_sales models_one)

lemma search_sales_miss: "searchCatalog ''p'' (Inr (catalog_of sales_model)) ''zzz'' = Inr []"
  by (simp add: searchCatalog_def load_one rank_models_def sort_by_score_desc_def score_hit_def
        score_sales_miss models_one)

lemma search_updates:
  "searchCatalog ''p'' (Inr (catalog_of updates_model)) ''sales''
     = Inr [\<lparr>model = updates_model, relevanceScore = 10, matchedFields = [''description'']\<rparr>]"
  by (simp add: searchCatalog_def load_one rank_models_def sort_by_score_desc_def score_hit_def
        score_updates models_one)

lemma parts_sales: "selectParts_of sales_model = [''a'', ''avg(b) AS b'']"
  by (simp add: generator_eval sales_model_def plain_column_def char_eval)

lemma sql_sales:
  "build_sql sales_model [''a'', ''avg(b) AS b'']
     = ''SELECT a, avg(b) AS b\<newline>FROM T\<newline>GROUP BY a\<newline>ORDER BY a''"
  by (simp add: generator_eval sales_model_def plain_column_def char_eval)

lemma parts_updates: "selectParts_of updates_model = [''update'']"
  by (simp add: generator_eval updates_model_def plain_column_def char_eval)

lemma sql_updates:
  "build_sql updates_model [''update'']
     = ''SELECT update\<newline>FROM S\<newline>GROUP BY update\<newline>ORDER BY update''"
  by (simp add: generator_eval updates_model_def plain_column_def char_eval)

lemma allowlist_sales:
  "buildAllowlist (catalog_of sales_model)
     = \<lparr>tables = [(''T'', {''a'', ''b''})], modelToTable = [(''T'', ''T'')]\<rparr>"
  by (simp add: buildAllowlist_def buildAllowlist_step_def models_one table_identity_def
        truthy_def trim_def Object_keys_def sales_model_def char_eval Let_def)

lemma norm_sales:
  "normalize ''SELECT a, avg(b) AS b\<newline>FROM T\<newline>GROUP BY a\<newline>ORDER BY a''
     = ''SELECT a, avg(b) AS b FROM T GROUP BY a ORDER BY a''"
  by (simp add: normalize_def trim_def char_eval)

lemma lower_sales:
  "lower ''SELECT a, avg(b) AS b FROM T GROUP BY a ORDER BY a''
     = ''select a, avg(b) as b from t group by a order by a''"
  by (simp add: lower_def toLowerCase_def char_eval)

lemma scan_sales:
  "containsForbidden ''select a, avg(b) as b from t group by a order by a'' = None"
  by (simp add: scan_eval char_eval)

lemma star_sales: "test_select_star ''SELECT a, avg(b) AS b FROM T GROUP BY a ORDER BY a'' = False"
  by (simp add: test_select_star_def select_star_at_def char_eval)

lemma from_sales:
  "extractFromTable ''SELECT a, avg(b) AS b FROM T GROUP BY a ORDER BY a'' = Some ''T''"
  by (simp add: extractFromTable_def from_at_def char_eval)

lemma tokens_sales:
  "ident_tokens ''SELECT a, avg(b) AS b FROM T GROUP BY a ORDER BY a''
     = [''SELECT'', ''a'', ''avg'', ''b'', ''AS'', ''b'', ''FROM'', ''T'', ''GROUP'', ''BY'', ''a'',
        ''ORDER'', ''BY'', ''a'']"
  by (simp add: char_eval)

lemma cols_sales:
  "findReferencedColumns ''SELECT a, avg(b) AS b FROM T GROUP BY a ORDER BY a'' ''T''
     = [''a'', ''b'']"
  unfolding findReferencedColumns_def tokens_sales
  by (simp add: column_eval char_eval)

lemma accept_sales:
  "validateSql ''SELECT a, avg(b) AS b\<newline>FROM T\<newline>GROUP BY a\<newline>ORDER BY a''
     \<lparr>tables = [(''T'', {''a'', ''b''})], modelToTable = m\<rparr>
   = Inr \<lparr>table = ''T'', referencedColumns = [''a'', ''b'']\<rparr>"
  by (simp add: validateSql_def norm_sales lower_sales scan_sales star_sales from_sales
        cols_sales gate_eval)

lemma norm_updates:
  "normalize ''SELECT update\<newline>FROM S\<newline>GROUP BY update\<newline>ORDER BY update''
     = ''SELECT update FROM S GROUP BY update ORDER BY update''"
  by (simp add: normalize_def trim_def char_eval)

lemma lower_updates:
  "lower ''SELECT update FROM S GROUP BY update ORDER BY update''
     = ''select update from s group by update order by update''"
  by (simp add: lower_def toLowerCase_def char_eval)

lemma scan_updates:
  "containsForbidden ''select update from s group by update order by update'' = Some ''update''"
  by (simp add: scan_eval char_eval)

lemma reject_updates:
  "validateSql ''SELECT update\<newline>FROM S\<newline>GROUP BY update\<newline>ORDER BY update'' allowlist
   = Inl (SqlValidationError ''Forbidden keyword detected: update'')"
  by (simp add: validateSql_def norm_updates lower_updates scan_updates gate_eval)

lemma reject_scenario_C:
  "validateSql ''SELECT a FROM allowedT; DROP TABLE allowedT'' allowlist
   = Inl (SqlValidationError ''Multi-statement SQL is not allowed.'')"
  by (simp add: validateSql_def normalize_scenario_C gate_eval)

lemma run_sales:
  "queryExecutor_execute ''p'' (Inr (catalog_of sales_model)) (Inr (catalog_of sales_model))
     no_rows ''sales''
   = (QuerySuccess ''T'' (Some ''sales'') (Some ''T'')
        ''SELECT a, avg(b) AS b\<newline>FROM T\<newline>GROUP BY a\<newline>ORDER BY a''
        \<lparr>table = ''T'', referencedColumns = [''a'', ''b'']\<rparr> \<lparr>rowCount = 0, rows = []\<rparr>,
      [RunSelect ''SELECT a, avg(b) AS b\<newline>FROM T\<newline>GROUP BY a\<newline>ORDER BY a''
         run_options])"
proof -
  have m: "name sales_model = ''T''" "description sales_model = Some ''sales''"
    "relation_name sales_model = Some ''T''"
    by (simp_all add: sales_model_def)
  show ?thesis
    unfolding queryExecutor_execute_def queryExecutor_try_def search_sales
    by (simp add: m truthy_def parts_sales sql_sales load_one allowlist_sales accept_sales
          no_rows_def Let_def)
qed

lemma run_direct:
  "sqlExecutor_execute ''p'' (Inr (catalog_of sales_model)) no_rows ''SELECT a, b FROM T''
   = (SqlSuccess ''T'' [''a'', ''b''] 0 [],
      [RunSelect ''SELECT a, b FROM T'' run_options])"
  unfolding sqlExecutor_execute_def sqlExecutor_try_def
  by (simp add: load_one allowlist_sales accept_a_b no_rows_def Let_def)

theorem validation_gate_witness:
  "queryExecutor_execute ''p'' (Inr (catalog_of sales_model)) (Inr (catalog_of sales_model))
     no_rows ''sales''
   = (QuerySuccess ''T'' (Some ''sales'') (Some ''T'')
        ''SELECT a, avg(b) AS b\<newline>FROM T\<newline>GROUP BY a\<newline>ORDER BY a''
        \<lparr>table = ''T'', referencedColumns = [''a'', ''b'']\<rparr> \<lparr>rowCount = 0, rows = []\<rparr>,
      [RunSelect ''SELECT a, avg(b) AS b\<newline>FROM T\<newline>GROUP BY a\<newline>ORDER BY a''
         run_options])
   \<and> validateSql ''SELECT a, avg(b) AS b\<newline>FROM T\<newline>GROUP BY a\<newline>ORDER BY a''
        (buildAllowlist (catalog_of sales_model))
       = Inr \<lparr>table = ''T'', referencedColumns = [''a'', ''b'']\<rparr>
   \<and> sqlExecutor_execute ''p'' (Inr (catalog_of sales_model)) no_rows ''SELECT a, b FROM T''
       = (SqlSuccess ''T'' [''a'', ''b''] 0 [], [RunSelect ''SELECT a, b FROM T'' run_options])
   \<and> validateSql ''SELECT a, b FROM T'' (buildAllowlist (catalog_of sales_model))
       = Inr \<lparr>table = ''T'', referencedColumns = [''a'', ''b'']\<rparr>
   \<and> searchCatalog ''p'' (Inr (catalog_of sales_model)) ''zzz'' = Inr []
   \<and> queryExecutor_execute ''p'' (Inr (catalog_of sales_model)) (Inr (catalog_of sales_model))
        no_rows ''zzz''
       = (Failure ''NO_MODEL_FOUND''
            (''No matching models found for query: '' @ [CHR 0x22] @ ''zzz'' @ [CHR 0x22]), [])
   \<and> validateSql (build_sql updates_model (selectParts_of updates_model))
        (buildAllowlist (catalog_of updates_model))
       = Inl (SqlValidationError ''Forbidden keyword detected: update'')
   \<and> queryExecutor_execute ''p'' (Inr (catalog_of updates_model)) (Inr (catalog_of updates_model))
        no_rows ''sales''
       = (Failure ''SQL_VALIDATION_ERROR'' ''Forbidden keyword detected: update'', [])
   \<and> sqlExecutor_execute ''p'' (Inr (catalog_of sales_model)) no_rows
        ''SELECT a FROM allowedT; DROP TABLE allowedT''
       = (Failure ''SQL_VALIDATION_ERROR'' ''Multi-statement SQL is not allowed.'', [])"
proof -
  let ?sales = "Inr (catalog_of sales_model) :: exn + AiCatalog"
  let ?updates = "Inr (catalog_of updates_model) :: exn + AiCatalog"
  let ?r = "\<lparr>model = updates_model, relevanceScore = 10, matchedFields = [''description'']\<rparr>"
  have v1: "validateSql (build_sql updates_model (selectParts_of updates_model))
        (buildAllowlist (catalog_of updates_model))
       = Inl (SqlValidationError ''Forbidden keyword detected: update'')"
    unfolding parts_updates sql_updates by (rule reject_updates)
  have t1: "truthy (relation_name (model ?r))"
    by (simp add: truthy_def updates_model_def)
  have p1: "selectParts_of (model ?r) \<noteq> []"
    by (simp add: parts_updates)
  have v1': "validateSql (build_sql (model ?r) (selectParts_of (model ?r)))
             (buildAllowlist (catalog_of updates_model))
            = Inl (SqlValidationError ''Forbidden keyword detected: update'')"
    using v1 by simp
  have h1: "searchCatalog ''p'' ?updates ''sales'' = Inr (?r # [])
        \<and> truthy (relation_name (model ?r))
        \<and> selectParts_of (model ?r) \<noteq> []
        \<and> loadAiCatalog ''p'' ?updates = Inr (catalog_of updates_model)
        \<and> validateSql (build_sql (model ?r) (selectParts_of (model ?r)))
             (buildAllowlist (catalog_of updates_model))
            = Inl (SqlValidationError ''Forbidden keyword detected: update'')"
    using search_updates t1 p1 load_one v1' by blast
  have h2: "loadAiCatalog ''p'' ?sales = Inr (catalog_of sales_model)
        \<and> validateSql ''SELECT a FROM allowedT; DROP TABLE allowedT''
             (buildAllowlist (catalog_of sales_model))
            = Inl (SqlValidationError ''Multi-statement SQL is not allowed.'')"
    using load_one reject_scenario_C by blast
  note g = validation_gate [of "''p''" ?updates ?updates no_rows "''sales''" ?sales
      "''SELECT a FROM allowedT; DROP TABLE allowedT''" ?r "[]" "catalog_of updates_model"
      "SqlValidationError ''Forbidden keyword detected: update''" "catalog_of sales_model"
      "SqlValidationError ''Multi-statement SQL is not allowed.''"]
  from g h1 have r1: "queryExecutor_execute ''p'' ?updates ?updates no_rows ''sales''
       = (Failure ''SQL_VALIDATION_ERROR''
            (message (SqlValidationError ''Forbidden keyword detected: update'')), [])"
    by blast
  from g h2 have r2: "sqlExecutor_execute ''p'' ?sales no_rows
        ''SELECT a FROM allowedT; DROP TABLE allowedT''
       = (Failure ''SQL_VALIDATION_ERROR''
            (message (SqlValidationError ''Multi-statement SQL is not allowed.'')), [])"
    by blast
  from validation_gate [of "''p''" ?sales ?sales no_rows "''zzz''"] search_sales_miss
  have r3: "queryExecutor_execute ''p'' ?sales ?sales no_rows ''zzz''
       = (Failure ''NO_MODEL_FOUND''
            (''No matching models found for query: '' @ [CHR 0x22] @ ''zzz'' @ [CHR 0x22]), [])"
    by blast
  have a1: "validateSql ''SELECT a, avg(b) AS b\<newline>FROM T\<newline>GROUP BY a\<newline>ORDER BY a''
        (buildAllowlist (catalog_of sales_model))
       = Inr \<lparr>table = ''T'', referencedColumns = [''a'', ''b'']\<rparr>"
    unfolding allowlist_sales by (rule accept_sales)
  have a2: "validateSql ''SELECT a, b FROM T'' (buildAllowlist (catalog_of sales_model))
       = Inr \<lparr>table = ''T'', referencedColumns = [''a'', ''b'']\<rparr>"
    unfolding allowlist_sales by (rule accept_a_b)
  from r1 have r1': "queryExecutor_execute ''p'' ?updates ?updates no_rows ''sales''
       = (Failure ''SQL_VALIDATION_ERROR'' ''Forbidden keyword detected: update'', [])"
    by simp
  from r2 have r2': "sqlExecutor_execute ''p'' ?sales no_rows
        ''SELECT a FROM allowedT; DROP TABLE allowedT''
       = (Failure ''SQL_VALIDATION_ERROR'' ''Multi-statement SQL is not allowed.'', [])"
    by simp
  from run_sales a1 run_direct a2 search_sales_miss r3 v1 r1' r2'
  show ?thesis by blast
qed

section \<open>The fallback of the generator\<close>

text \<open>
  Claim C9 at a model with one dimension, no metric and a numeric column that is neither.
  No metric is selected, yet the projection is the dimension alone: the fallback, which
  would add \<open>avg(revenue) AS revenue\<close>, runs only when the projection is empty, so not
  when a dimension was selected.
\<close>

theorem fallback_skipped_with_dimension:
  "selected_dimensions revenue_model = [''week'']
   \<and> selected_metrics revenue_model = []
   \<and> fallback_projection revenue_model = [''week'', ''avg(revenue) AS revenue'']
   \<and> selectParts_of revenue_model = [''week'']
   \<and> build_sql revenue_model (selectParts_of revenue_model)
       = ''SELECT week\<newline>FROM '' @ backtick ''db'' @ ''.'' @ backtick ''costs''
         @ ''\<newline>GROUP BY week\<newline>ORDER BY week''"
  by (simp add: generator_eval model_eval char_eval)

theorem fallback_skipped_with_dimension_witness:
  "''avg(revenue) AS revenue'' \<notin> set (selectParts_of revenue_model)
   \<and> ''avg(revenue) AS revenue'' \<in> set (fallback_projection revenue_model)
   \<and> length (selected_metrics revenue_model) = 0"
  using fallback_skipped_with_dimension by simp

end
